theory Spec2Isabelle
  imports Main
begin

section \<open>Strings and exceptions\<close>

text \<open>
  A Python \<open>str\<close> is a sequence of Unicode code points, so a string of the program is a
  list of code points; \<open>str\<close> turns an ASCII literal into one. The messages of
  exceptions are ASCII literals of the source and stay Isabelle strings.
\<close>

type_synonym codepoint = nat
type_synonym pystr = "codepoint list"

definition str :: "string \<Rightarrow> pystr" where
  "str s = map of_char s"

text \<open>
  The exceptions that the modelled functions raise, with their message. \<open>UnboundLocalError\<close>
  (a subclass of \<open>NameError\<close> in Python) carries the name of the variable that was read
  before it was bound; \<open>RemoteError\<close> stands for whatever a call of the remote service's
  client library raises.
\<close>

datatype exn =
    NameError string
  | ValueError string
  | UnboundLocalError string
  | RemoteError string

section \<open>The regular expressions of the source\<close>

text \<open>
  The three patterns of the source use literals, a character class under \<open>+\<close> and the
  anchor \<open>$\<close>. \<open>re_match\<close> is the backtracking matcher of Python's \<open>re\<close> at one
  position for such a pattern: it returns the length of the match. A class under \<open>+\<close> is
  greedy: it first takes the longest run and gives characters back one at a time, but never
  fewer than one. Without the MULTILINE flag \<open>$\<close> matches at the end of the text and
  just before a newline that ends the text.
\<close>

datatype re_item = Lit codepoint | Plus "codepoint \<Rightarrow> bool" | Eos

primrec try_down :: "(nat \<Rightarrow> 'a option) \<Rightarrow> nat \<Rightarrow> 'a option" where
  "try_down f 0 = None"
| "try_down f (Suc n) = (case f (Suc n) of Some y \<Rightarrow> Some y | None \<Rightarrow> try_down f n)"

fun re_match :: "re_item list \<Rightarrow> pystr \<Rightarrow> nat option" where
  "re_match [] t = Some 0"
| "re_match (Lit c # ps) t =
     (case t of [] \<Rightarrow> None
      | d # ds \<Rightarrow> if d = c then map_option Suc (re_match ps ds) else None)"
| "re_match (Plus P # ps) t =
     try_down (\<lambda>n. map_option (\<lambda>m. n + m) (re_match ps (drop n t)))
       (length (takeWhile P t))"
| "re_match (Eos # ps) t = (if t = [] \<or> t = [10] then re_match ps t else None)"

text \<open>
  \<open>re.sub(pattern, repl, text)\<close> with a function \<open>repl\<close> that ignores the match and
  returns \<open>v\<close>: scan from the left; at a match insert \<open>v\<close> as it is and go on behind
  the match (an empty match also copies the next character); otherwise copy one character.
\<close>

function re_sub :: "re_item list \<Rightarrow> pystr \<Rightarrow> pystr \<Rightarrow> pystr" where
  "re_sub ps v [] = (case re_match ps [] of Some _ \<Rightarrow> v | None \<Rightarrow> [])"
| "re_sub ps v (c # cs) =
     (case re_match ps (c # cs) of
        None \<Rightarrow> c # re_sub ps v cs
      | Some 0 \<Rightarrow> v @ c # re_sub ps v cs
      | Some (Suc n) \<Rightarrow> v @ re_sub ps v (drop n cs))"
  by pat_completeness auto
termination
  by (relation "measure (\<lambda>(ps, v, t). length t)") auto

text \<open>
  The character classes. For a \<open>str\<close> pattern \<open>\s\<close> is Unicode whitespace
  (\<open>str.isspace\<close>), and \<open>\w\<close> is a Unicode alphanumeric character or the underscore. In
  ASCII the alphanumeric characters are the digits and the letters; beyond ASCII they are
  given by the Unicode character database, which is the parameter \<open>alnum\<close>.
\<close>

definition is_space :: "codepoint \<Rightarrow> bool" where
  "is_space c \<longleftrightarrow>
     (9 \<le> c \<and> c \<le> 13) \<or> (28 \<le> c \<and> c \<le> 32) \<or> c = 133 \<or> c = 160 \<or> c = 5760 \<or>
     (8192 \<le> c \<and> c \<le> 8202) \<or> c = 8232 \<or> c = 8233 \<or> c = 8239 \<or> c = 8287 \<or> c = 12288"

definition ascii_word :: "codepoint \<Rightarrow> bool" where
  "ascii_word c \<longleftrightarrow>
     (48 \<le> c \<and> c \<le> 57) \<or> (65 \<le> c \<and> c \<le> 90) \<or> (97 \<le> c \<and> c \<le> 122) \<or> c = 95"

definition is_word :: "(codepoint \<Rightarrow> bool) \<Rightarrow> codepoint \<Rightarrow> bool" where
  "is_word alnum c \<longleftrightarrow> (if c < 128 then ascii_word c else alnum c)"

section \<open>Input validation\<close>

text \<open>
  \<open>validate_player\<close>: \<open>args.player\<close> is \<open>None\<close> when the option is not given, and
  \<open>not player\<close> holds for \<open>None\<close> and for the empty string. The pattern is
  \<open>^[\w-]+$\<close>, and \<open>re.findall\<close> returns a non-empty list exactly when it matches; with
  \<open>^\<close> a match can only start at position 0.
\<close>

definition player_pattern :: "(codepoint \<Rightarrow> bool) \<Rightarrow> re_item list" where
  "player_pattern alnum = [Plus (\<lambda>c. is_word alnum c \<or> c = 45), Eos]"

definition validate_player :: "(codepoint \<Rightarrow> bool) \<Rightarrow> pystr option \<Rightarrow> exn + pystr" where
  "validate_player alnum player =
     (case player of
        None \<Rightarrow> Inl (NameError ''Player ID is not defined'')
      | Some p \<Rightarrow>
          if p = [] then Inl (NameError ''Player ID is not defined'')
          else if re_match (player_pattern alnum) p = None
            then Inl (ValueError ''Player is not an alphanumeric ID'')
          else Inr p)"

section \<open>Template rendering\<close>

text \<open>
  \<open>prompt_input\<close>: the pattern is \<open>\$\{\{\s+KEY\s+\}\}\<close> where \<open>KEY\<close> is
  \<open>re.escape(key)\<close>, which matches the characters of the key one by one; the
  replacement is the function \<open>lambda _: value\<close>.
\<close>

definition placeholder_pattern :: "pystr \<Rightarrow> re_item list" where
  "placeholder_pattern key =
     map Lit (str ''${{'') @ [Plus is_space] @ map Lit key @ [Plus is_space] @ map Lit (str ''}}'')"

definition prompt_input :: "pystr \<Rightarrow> pystr \<Rightarrow> pystr \<Rightarrow> pystr" where
  "prompt_input prompt key val = re_sub (placeholder_pattern key) val prompt"

section \<open>Battle input\<close>

text \<open>
  The values that \<open>json.loads\<close> returns. A \<open>dict\<close> keeps its items in insertion
  order; floats are left abstract (\<open>'f\<close>).
\<close>

datatype 'f pyval =
    PyNone
  | PyBool bool
  | PyInt int
  | PyFloat 'f
  | PyStr pystr
  | PyList "'f pyval list"
  | PyDict "(pystr \<times> 'f pyval) list"

definition has_key :: "pystr \<Rightarrow> (pystr \<times> 'f pyval) list \<Rightarrow> bool" where
  "has_key k items \<longleftrightarrow> k \<in> fst ` set items"

text \<open>
  \<open>validate_input\<close>. The parser and the serialiser of the \<open>json\<close> module are the
  parameters \<open>loads\<close> (\<open>None\<close> when it raises) and \<open>dumps\<close>.

  The name \<open>e\<close> of \<open>except Exception as e\<close> is a local variable of the function, bound
  only while the handler runs. When \<open>json.loads\<close> returns a value that is not a
  \<open>dict\<close>, the statement \<open>raise ValueError("Invalid battle input JSON") from e\<close>
  evaluates \<open>e\<close>, which was never bound, so what is raised is \<open>UnboundLocalError\<close>.
\<close>

definition validate_input ::
  "(pystr \<Rightarrow> 'f pyval option) \<Rightarrow> ('f pyval \<Rightarrow> pystr) \<Rightarrow> pystr option \<Rightarrow> exn + pystr" where
  "validate_input loads dumps inp =
     (case inp of
        None \<Rightarrow> Inl (NameError ''Input is not defined'')
      | Some s \<Rightarrow>
          if s = [] then Inl (NameError ''Input is not defined'')
          else
            (case loads s of
               None \<Rightarrow> Inl (ValueError ''Battle input is not valid JSON'')
             | Some (PyDict items) \<Rightarrow>
                 if \<not> has_key (str ''player_data'') items
                   then Inl (ValueError ''Battle input is missing player data'')
                 else if \<not> has_key (str ''battle_state'') items
                   then Inl (ValueError ''Battle input is missing battle state'')
                 else if \<not> has_key (str ''request_data'') items
                   then Inl (ValueError ''Battle input is missing request data'')
                 else if \<not> has_key (str ''failed_actions'') items
                   then Inl (ValueError ''Battle input is missing failed actions'')
                 else Inr (dumps (PyDict items))
             | Some _ \<Rightarrow> Inl (UnboundLocalError ''e'')))"

section \<open>The remote service\<close>

text \<open>
  The objects of the client library, with the fields that the program reads or writes.
  A display name is optional on the remote side; a resource name is always assigned.
\<close>

record uploaded_file =
  file_name :: pystr
  file_display_name :: "pystr option"
  file_mime_type :: "pystr option"

record cached_content =
  cache_name :: pystr
  cache_display_name :: "pystr option"

record model =
  model_name :: pystr
  input_token_limit :: nat

record upload_file_config =
  up_display_name :: pystr
  up_mime_type :: "pystr option"

record create_cached_content_config =
  cc_display_name :: pystr
  cc_system_instruction :: pystr
  cc_contents :: "uploaded_file list option"
  cc_ttl :: pystr

record generate_content_config =
  system_instruction :: "pystr option"
  cached_content :: "pystr option"

record response =
  response_text :: "pystr option"

text \<open>
  The remote service is a parameter: each operation maps the state \<open>'r\<close> of the service
  to a result (or the exception that the call raises) and the next state. A client is
  this interface, the state of the service and, for counting, the calls issued so far.
\<close>

record 'r api =
  models_get :: "pystr \<Rightarrow> 'r \<Rightarrow> (exn + model) \<times> 'r"
  files_list :: "'r \<Rightarrow> (exn + uploaded_file list) \<times> 'r"
  files_upload :: "pystr \<Rightarrow> upload_file_config \<Rightarrow> 'r \<Rightarrow> (exn + uploaded_file) \<times> 'r"
  caches_list :: "'r \<Rightarrow> (exn + cached_content list) \<times> 'r"
  caches_create :: "pystr \<Rightarrow> create_cached_content_config \<Rightarrow> 'r \<Rightarrow> (exn + cached_content) \<times> 'r"
  generate_content ::
    "pystr \<Rightarrow> pystr \<Rightarrow> generate_content_config \<Rightarrow> 'r \<Rightarrow> (exn + response) \<times> 'r"

datatype call =
    ModelsGet pystr
  | FilesList
  | FilesUpload pystr upload_file_config
  | CachesList
  | CachesCreate pystr create_cached_content_config
  | GenerateContent pystr pystr generate_content_config

record 'r client =
  api :: "'r api"
  remote :: 'r
  calls :: "call list"

type_synonym ('r, 'a) action = "'r client \<Rightarrow> (exn + 'a) \<times> 'r client"

definition return :: "'a \<Rightarrow> ('r, 'a) action" where
  "return x c = (Inr x, c)"

definition raise :: "exn \<Rightarrow> ('r, 'a) action" where
  "raise e c = (Inl e, c)"

definition and_then :: "('r, 'a) action \<Rightarrow> ('a \<Rightarrow> ('r, 'b) action) \<Rightarrow> ('r, 'b) action" where
  "and_then m f c = (case m c of (Inl e, c') \<Rightarrow> (Inl e, c') | (Inr x, c') \<Rightarrow> f x c')"

definition remote_call :: "call \<Rightarrow> ('r api \<Rightarrow> 'r \<Rightarrow> (exn + 'a) \<times> 'r) \<Rightarrow> ('r, 'a) action" where
  "remote_call k op c =
     (case op (api c) (remote c) of
        (res, r') \<Rightarrow> (res, c\<lparr>remote := r', calls := calls c @ [k]\<rparr>))"

section \<open>Reconciling remote resources\<close>

text \<open>
  \<open>ensure_file\<close>: the loop over \<open>client.files.list()\<close> returns the first file whose
  display name is the requested one; after the loop the file is uploaded.
  \<open>mimetypes.guess_type\<close> is the parameter \<open>guess_type\<close>.
\<close>

definition ensure_file :: "(pystr \<Rightarrow> pystr option) \<Rightarrow> pystr \<Rightarrow> pystr \<Rightarrow> ('r, uploaded_file) action" where
  "ensure_file guess_type display_name path =
     and_then (remote_call FilesList files_list) (\<lambda>listing.
       case find (\<lambda>f. file_display_name f = Some display_name) listing of
         Some f \<Rightarrow> return f
       | None \<Rightarrow>
           (let config = \<lparr>up_display_name = display_name, up_mime_type = guess_type path\<rparr>
            in remote_call (FilesUpload path config) (\<lambda>a. files_upload a path config)))"

text \<open>
  \<open>ensure_all_files_in_directory\<close>: what \<open>dir.rglob("*")\<close> yields is a list of
  entries, each with its path, its path relative to \<open>dir\<close>, whether it is a regular file,
  and its suffix. The display name replaces every run of non-word characters of the
  relative path by an underscore.
\<close>

record dir_entry =
  entry_path :: pystr
  entry_relative :: pystr
  entry_is_file :: bool
  entry_suffix :: pystr

fun ensure_entries ::
  "(codepoint \<Rightarrow> bool) \<Rightarrow> (pystr \<Rightarrow> pystr option) \<Rightarrow> pystr \<Rightarrow> (dir_entry \<Rightarrow> bool) \<Rightarrow>
   dir_entry list \<Rightarrow> uploaded_file list \<Rightarrow> ('r, uploaded_file list) action" where
  "ensure_entries alnum guess_type prefix flt [] files = return files"
| "ensure_entries alnum guess_type prefix flt (p # ps) files =
     (if entry_is_file p \<and> flt p then
        (let name = re_sub [Plus (\<lambda>c. \<not> is_word alnum c)] (str ''_'') (entry_relative p)
         in and_then (ensure_file guess_type (prefix @ str ''_'' @ name) (entry_path p)) (\<lambda>f.
              ensure_entries alnum guess_type prefix flt ps (files @ [f])))
      else ensure_entries alnum guess_type prefix flt ps files)"

definition ensure_all_files_in_directory ::
  "(codepoint \<Rightarrow> bool) \<Rightarrow> (pystr \<Rightarrow> pystr option) \<Rightarrow> pystr \<Rightarrow> dir_entry list \<Rightarrow>
   (dir_entry \<Rightarrow> bool) \<Rightarrow> ('r, uploaded_file list) action" where
  "ensure_all_files_in_directory alnum guess_type prefix dir flt =
     ensure_entries alnum guess_type prefix flt dir []"

definition ensure_cache ::
  "pystr \<Rightarrow> pystr \<Rightarrow> pystr \<Rightarrow> uploaded_file list option \<Rightarrow> ('r, cached_content) action" where
  "ensure_cache mdl display_name context files =
     and_then (remote_call CachesList caches_list) (\<lambda>listing.
       case find (\<lambda>c. cache_display_name c = Some display_name) listing of
         Some cache \<Rightarrow> return cache
       | None \<Rightarrow>
           (let config = \<lparr>cc_display_name = display_name, cc_system_instruction = context,
                          cc_contents = files, cc_ttl = str ''300s''\<rparr>
            in remote_call (CachesCreate mdl config) (\<lambda>a. caches_create a mdl config)))"

section \<open>The orchestrator\<close>

text \<open>
  The options that \<open>gemini_battler\<close> reads. \<open>data\<close> is the data directory, here the
  entries found under it, or \<open>None\<close>; a \<open>Path\<close> is always true in a condition, so
  \<open>not options.data\<close> holds exactly for \<open>None\<close>.
\<close>

record options =
  player :: pystr
  input :: pystr
  use_cache :: bool
  data :: "dir_entry list option"
  use_data_files :: bool

text \<open>
  \<open>genai.Client(api_key=os.getenv("GEMINI_API_KEY"))\<close>: constructing the client object
  reaches nothing of the service, and it can raise (the library does when it has no key).
  The constructor is the parameter \<open>genai_client\<close>, which maps the value of the
  environment variable to the exception it raises, if any; \<open>api_key\<close> is that value.
  The record \<open>'r client\<close> stands for the service as the constructed client sees it.
\<close>

definition new_client :: "(pystr option \<Rightarrow> exn option) \<Rightarrow> pystr option \<Rightarrow> ('r, unit) action" where
  "new_client genai_client api_key =
     (case genai_client api_key of Some e \<Rightarrow> raise e | None \<Rightarrow> return ())"

text \<open>
  \<open>gemini_battler\<close>. Printing does not reach the service, and \<open>write_debug_file\<close>
  writes to the local disk and swallows every exception; they are left out.
\<close>

definition gemini_battler ::
  "(codepoint \<Rightarrow> bool) \<Rightarrow> (pystr \<Rightarrow> pystr option) \<Rightarrow> (pystr option \<Rightarrow> exn option) \<Rightarrow>
   pystr option \<Rightarrow> options \<Rightarrow> pystr \<Rightarrow> pystr \<Rightarrow> ('r, pystr option) action" where
  "gemini_battler alnum guess_type genai_client api_key opts context prompt =
     and_then (new_client genai_client api_key) (\<lambda>_.
     and_then (remote_call (ModelsGet (str ''models/gemini-2.5-flash''))
             (\<lambda>a. models_get a (str ''models/gemini-2.5-flash''))) (\<lambda>mdl.
     and_then (if use_data_files opts then
             if \<not> use_cache opts
               then raise (ValueError ''Caching must be enabled if using data files'')
             else
               (case data opts of
                  None \<Rightarrow> raise (ValueError ''Data directory must be defined if using data files'')
                | Some dir \<Rightarrow>
                    and_then (ensure_all_files_in_directory alnum guess_type (str ''data'') dir
                            (\<lambda>p. entry_suffix p = str ''.json''))
                      (\<lambda>fs. return (Some fs)))
           else return None) (\<lambda>files.
     and_then (if use_cache opts then
             and_then (ensure_cache (model_name mdl) (str ''battler'') context files) (\<lambda>cache.
               return \<lparr>system_instruction = None, cached_content = Some (cache_name cache)\<rparr>)
           else return \<lparr>system_instruction = Some context, cached_content = None\<rparr>) (\<lambda>config.
     and_then (remote_call (GenerateContent (model_name mdl) prompt config)
             (\<lambda>a. generate_content a (model_name mdl) prompt config)) (\<lambda>resp.
     return (response_text resp))))))"

text \<open>
  Two initial parts of \<open>gemini_battler\<close>, for the statements about a run: the part
  before \<open>ensure_cache\<close> is reached, which yields the model and the files, and the part
  before \<open>client.models.generate_content\<close> is called, which yields the model and the
  configuration of the generation call.
\<close>

definition before_cache ::
  "(codepoint \<Rightarrow> bool) \<Rightarrow> (pystr \<Rightarrow> pystr option) \<Rightarrow> (pystr option \<Rightarrow> exn option) \<Rightarrow>
   pystr option \<Rightarrow> options \<Rightarrow> ('r, model \<times> uploaded_file list option) action" where
  "before_cache alnum guess_type genai_client api_key opts =
     and_then (new_client genai_client api_key) (\<lambda>_.
     and_then (remote_call (ModelsGet (str ''models/gemini-2.5-flash''))
             (\<lambda>a. models_get a (str ''models/gemini-2.5-flash''))) (\<lambda>mdl.
     and_then (if use_data_files opts then
             if \<not> use_cache opts
               then raise (ValueError ''Caching must be enabled if using data files'')
             else
               (case data opts of
                  None \<Rightarrow> raise (ValueError ''Data directory must be defined if using data files'')
                | Some dir \<Rightarrow>
                    and_then (ensure_all_files_in_directory alnum guess_type (str ''data'') dir
                            (\<lambda>p. entry_suffix p = str ''.json''))
                      (\<lambda>fs. return (Some fs)))
           else return None) (\<lambda>files.
     return (mdl, files))))"

definition before_generate ::
  "(codepoint \<Rightarrow> bool) \<Rightarrow> (pystr \<Rightarrow> pystr option) \<Rightarrow> (pystr option \<Rightarrow> exn option) \<Rightarrow>
   pystr option \<Rightarrow> options \<Rightarrow> pystr \<Rightarrow> ('r, model \<times> generate_content_config) action" where
  "before_generate alnum guess_type genai_client api_key opts context =
     and_then (new_client genai_client api_key) (\<lambda>_.
     and_then (remote_call (ModelsGet (str ''models/gemini-2.5-flash''))
             (\<lambda>a. models_get a (str ''models/gemini-2.5-flash''))) (\<lambda>mdl.
     and_then (if use_data_files opts then
             if \<not> use_cache opts
               then raise (ValueError ''Caching must be enabled if using data files'')
             else
               (case data opts of
                  None \<Rightarrow> raise (ValueError ''Data directory must be defined if using data files'')
                | Some dir \<Rightarrow>
                    and_then (ensure_all_files_in_directory alnum guess_type (str ''data'') dir
                            (\<lambda>p. entry_suffix p = str ''.json''))
                      (\<lambda>fs. return (Some fs)))
           else return None) (\<lambda>files.
     and_then (if use_cache opts then
             and_then (ensure_cache (model_name mdl) (str ''battler'') context files) (\<lambda>cache.
               return \<lparr>system_instruction = None, cached_content = Some (cache_name cache)\<rparr>)
           else return \<lparr>system_instruction = Some context, cached_content = None\<rparr>) (\<lambda>config.
     return (mdl, config)))))"

section \<open>Notions used in the statements\<close>

text \<open>
  A placeholder for a key, written with the whitespace \<open>a\<close> before the key and \<open>b\<close>
  after it, and the positions of a text where a placeholder with whitespace on both sides
  of the key starts.
\<close>

definition placeholder :: "pystr \<Rightarrow> pystr \<Rightarrow> pystr \<Rightarrow> pystr" where
  "placeholder key a b = str ''${{'' @ a @ key @ b @ str ''}}''"

definition placeholder_at :: "pystr \<Rightarrow> pystr \<Rightarrow> nat \<Rightarrow> bool" where
  "placeholder_at key t i \<longleftrightarrow>
     (\<exists>a b rest. a \<noteq> [] \<and> b \<noteq> [] \<and> list_all is_space a \<and> list_all is_space b \<and>
        drop i t = placeholder key a b @ rest)"

text \<open>The four keys that \<open>validate_input\<close> looks for, and its messages for a missing key.\<close>

definition required_keys :: "pystr list" where
  "required_keys =
     [str ''player_data'', str ''battle_state'', str ''request_data'', str ''failed_actions'']"

definition missing_key_messages :: "string list" where
  "missing_key_messages =
     [''Battle input is missing player data'', ''Battle input is missing battle state'',
      ''Battle input is missing request data'', ''Battle input is missing failed actions'']"

text \<open>Kinds of calls, and what an action may add to the calls of a client.\<close>

fun is_upload :: "call \<Rightarrow> bool" where
  "is_upload (FilesUpload p cfg) = True"
| "is_upload k = False"

fun is_generate :: "call \<Rightarrow> bool" where
  "is_generate (GenerateContent m p cfg) = True"
| "is_generate k = False"

definition issues_only :: "(call \<Rightarrow> bool) \<Rightarrow> ('r, 'a) action \<Rightarrow> bool" where
  "issues_only K m \<longleftrightarrow>
     (\<forall>c. api (snd (m c)) = api c \<and> (\<exists>new. calls (snd (m c)) = calls c @ new \<and> list_all K new))"

section \<open>Sample data\<close>

text \<open>
  The alphanumeric characters of Unicode between U+0080 and U+00FF, as a table for
  \<open>alnum\<close> that is right on Latin-1 text.
\<close>

definition latin1_alnum :: "codepoint \<Rightarrow> bool" where
  "latin1_alnum c \<longleftrightarrow>
     c = 170 \<or> c = 178 \<or> c = 179 \<or> c = 181 \<or> c = 185 \<or> c = 186 \<or> (188 \<le> c \<and> c \<le> 190) \<or>
     (192 \<le> c \<and> c \<le> 214) \<or> (216 \<le> c \<and> c \<le> 246) \<or> (248 \<le> c \<and> c \<le> 255)"

text \<open>
  A battle input with the four required keys, the text that \<open>json.dumps\<close> gives for it,
  and \<open>json.loads\<close> and \<open>json.dumps\<close> on the sample texts that the concrete
  evaluations below use (\<open>{\<close> alone is malformed).
\<close>

definition sample_object :: "unit pyval" where
  "sample_object =
     PyDict [(str ''player_data'', PyDict []), (str ''battle_state'', PyDict []),
             (str ''request_data'', PyDict []), (str ''failed_actions'', PyList [])]"

definition sample_text :: pystr where
  "sample_text =
     [123] @ [34] @ str ''player_data'' @ [34] @ str '': {}, '' @
     [34] @ str ''battle_state'' @ [34] @ str '': {}, '' @
     [34] @ str ''request_data'' @ [34] @ str '': {}, '' @
     [34] @ str ''failed_actions'' @ [34] @ str '': []}''"

definition sample_partial_text :: pystr where
  "sample_partial_text = [123] @ [34] @ str ''player_data'' @ [34] @ str '': {}}''"

definition sample_loads :: "pystr \<Rightarrow> unit pyval option" where
  "sample_loads s =
     (if s = sample_text then Some sample_object
      else if s = sample_partial_text then Some (PyDict [(str ''player_data'', PyDict [])])
      else if s = str ''[]'' then Some (PyList [])
      else if s = str ''1'' then Some (PyInt 1)
      else None)"

definition sample_dumps :: "unit pyval \<Rightarrow> pystr" where
  "sample_dumps v =
     (if v = sample_object then sample_text
      else if v = PyList [] then str ''[]''
      else if v = PyInt 1 then str ''1''
      else if v = PyDict [(str ''player_data'', PyDict [])] then sample_partial_text
      else [])"

text \<open>
  A remote service held in memory: it lists what was uploaded or created, in that order,
  gives an uploaded file the display name and MIME type of the request, and answers every
  generation call with the response \<open>resp\<close>.
\<close>

record service =
  svc_files :: "uploaded_file list"
  svc_caches :: "cached_content list"

definition memory_api :: "response \<Rightarrow> service api" where
  "memory_api resp =
     \<lparr>models_get = (\<lambda>name r. (Inr \<lparr>model_name = name, input_token_limit = 1048576\<rparr>, r)),
      files_list = (\<lambda>r. (Inr (svc_files r), r)),
      files_upload = (\<lambda>path cfg r.
        (let f = \<lparr>file_name = str ''files/'' @ up_display_name cfg,
                  file_display_name = Some (up_display_name cfg),
                  file_mime_type = up_mime_type cfg\<rparr>
         in (Inr f, r\<lparr>svc_files := svc_files r @ [f]\<rparr>))),
      caches_list = (\<lambda>r. (Inr (svc_caches r), r)),
      caches_create = (\<lambda>mdl cfg r.
        (let k = \<lparr>cache_name = str ''cachedContents/'' @ cc_display_name cfg,
                  cache_display_name = Some (cc_display_name cfg)\<rparr>
         in (Inr k, r\<lparr>svc_caches := svc_caches r @ [k]\<rparr>))),
      generate_content = (\<lambda>mdl prompt cfg r. (Inr resp, r))\<rparr>"

definition memory_client :: "response \<Rightarrow> service client" where
  "memory_client resp =
     \<lparr>api = memory_api resp, remote = \<lparr>svc_files = [], svc_caches = []\<rparr>, calls = []\<rparr>"

text \<open>A client of this service whose listing holds two files with the same display name.\<close>

definition duplicate_client :: "service client" where
  "duplicate_client = \<lparr>api = memory_api \<lparr>response_text = None\<rparr>,
     remote = \<lparr>svc_files =
       [\<lparr>file_name = str ''files/a'', file_display_name = None, file_mime_type = None\<rparr>,
        \<lparr>file_name = str ''files/b'', file_display_name = Some (str ''data_x_json''), file_mime_type = None\<rparr>,
        \<lparr>file_name = str ''files/c'', file_display_name = Some (str ''data_x_json''), file_mime_type = None\<rparr>],
       svc_caches = []\<rparr>, calls = []\<rparr>"

text \<open>
  A constructor that asks for a key, and a client whose service already holds a cache with
  the display name \<open>battler\<close>.
\<close>

definition key_required :: "pystr option \<Rightarrow> exn option" where
  "key_required key =
     (if key = None \<or> key = Some [] then Some (ValueError ''Missing key inputs argument!'')
      else None)"

definition cached_client :: "response \<Rightarrow> service client" where
  "cached_client resp =
     \<lparr>api = memory_api resp,
      remote = \<lparr>svc_files = [],
                svc_caches = [\<lparr>cache_name = str ''cachedContents/k7'',
                                cache_display_name = Some (str ''battler'')\<rparr>]\<rparr>,
      calls = []\<rparr>"

text \<open>Options of a run without a data directory.\<close>

definition sample_options :: "bool \<Rightarrow> bool \<Rightarrow> options" where
  "sample_options cache files =
     \<lparr>player = str ''p1'', input = sample_text, use_cache = cache, data = None,
      use_data_files = files\<rparr>"

section \<open>Properties of the matcher\<close>

lemma try_down_Some:
  "try_down f n = Some y \<Longrightarrow> \<exists>k. 1 \<le> k \<and> k \<le> n \<and> f k = Some y"
proof (induction n)
  case 0
  then show ?case by simp
next
  case (Suc n)
  show ?case
  proof (cases "f (Suc n)")
    case None
    with Suc.prems have "try_down f n = Some y" by simp
    with Suc.IH obtain k where "1 \<le> k" "k \<le> n" "f k = Some y" by blast
    then show ?thesis by (intro exI[of _ k]) simp
  next
    case (Some z)
    with Suc.prems have "z = y" by simp
    with Some show ?thesis by (intro exI[of _ "Suc n"]) simp
  qed
qed

lemma try_down_None:
  "try_down f n = None \<longleftrightarrow> (\<forall>k. 1 \<le> k \<and> k \<le> n \<longrightarrow> f k = None)"
proof (induction n)
  case 0
  then show ?case by simp
next
  case (Suc n)
  show ?case
  proof (cases "f (Suc n)")
    case None
    have "(\<forall>k. 1 \<le> k \<and> k \<le> Suc n \<longrightarrow> f k = None) \<longleftrightarrow> (\<forall>k. 1 \<le> k \<and> k \<le> n \<longrightarrow> f k = None)"
      using None le_Suc_eq by auto
    with None Suc.IH show ?thesis by simp
  next
    case (Some z)
    then show ?thesis by auto
  qed
qed

lemma re_match_lits:
  "re_match (map Lit l @ ps) t = Some n \<longleftrightarrow>
     (\<exists>t' m. t = l @ t' \<and> re_match ps t' = Some m \<and> n = length l + m)"
proof (induction l arbitrary: t n)
  case Nil
  then show ?case by simp
next
  case (Cons c l)
  show ?case
  proof (cases t)
    case Nil
    then show ?thesis by simp
  next
    case (Cons d ds)
    show ?thesis
    proof (cases "d = c")
      case True
      have "re_match (map Lit (c # l) @ ps) t = Some n \<longleftrightarrow>
            (\<exists>k. re_match (map Lit l @ ps) ds = Some k \<and> n = Suc k)"
        using Cons True by auto
      also have "\<dots> \<longleftrightarrow> (\<exists>t' m. ds = l @ t' \<and> re_match ps t' = Some m \<and> n = Suc (length l + m))"
        unfolding Cons.IH by blast
      finally show ?thesis using Cons True by simp
    next
      case False
      then show ?thesis using Cons by simp
    qed
  qed
qed

lemma re_match_plus_sound:
  assumes "re_match (Plus P # ps) t = Some n"
  shows "\<exists>a t' m. t = a @ t' \<and> a \<noteq> [] \<and> list_all P a \<and> re_match ps t' = Some m \<and> n = length a + m"
proof -
  from assms obtain k where k: "1 \<le> k" "k \<le> length (takeWhile P t)"
    and m: "map_option (\<lambda>m. k + m) (re_match ps (drop k t)) = Some n"
    using try_down_Some by fastforce
  from m obtain m' where m': "re_match ps (drop k t) = Some m'" "n = k + m'" by auto
  have len: "k \<le> length t" using k(2) length_takeWhile_le[of P t] by linarith
  have "take k t = take k (takeWhile P t)"
    using k(2) by (metis takeWhile_dropWhile_id take_append diff_is_0_eq take_0 append_Nil2)
  then have "set (take k t) \<subseteq> set (takeWhile P t)" by (simp add: set_take_subset)
  then have all: "list_all P (take k t)" by (auto simp: list_all_iff dest: set_takeWhileD)
  have ne: "take k t \<noteq> []" using k(1) len by (cases t) auto
  show ?thesis
    by (rule exI[of _ "take k t"], rule exI[of _ "drop k t"], rule exI[of _ m'])
       (use m' all ne len in simp)
qed

lemma re_match_plus_complete:
  assumes "a \<noteq> []" "list_all P a" "re_match ps t' \<noteq> None"
  shows "re_match (Plus P # ps) (a @ t') \<noteq> None"
proof -
  have "takeWhile P (a @ t') = a @ takeWhile P t'"
    using assms(2) by (simp add: list_all_iff)
  then have le: "length a \<le> length (takeWhile P (a @ t'))" by simp
  have "1 \<le> length a" using assms(1) by (cases a) auto
  moreover have "map_option (\<lambda>m. length a + m) (re_match ps (drop (length a) (a @ t'))) \<noteq> None"
    using assms(3) by simp
  ultimately show ?thesis using le by (auto simp: try_down_None)
qed


section \<open>Player identifiers\<close>

lemma player_match_iff:
  "re_match (player_pattern alnum) p \<noteq> None \<longleftrightarrow>
     (\<exists>w. w \<noteq> [] \<and> list_all (\<lambda>c. is_word alnum c \<or> c = 45) w \<and> (p = w \<or> p = w @ [10]))"
  (is "?L \<longleftrightarrow> ?R")
proof
  assume ?L
  then obtain n where "re_match (Plus (\<lambda>c. is_word alnum c \<or> c = 45) # [Eos]) p = Some n"
    by (auto simp: player_pattern_def)
  from re_match_plus_sound[OF this] obtain a t' m where
    a: "p = a @ t'" "a \<noteq> []" "list_all (\<lambda>c. is_word alnum c \<or> c = 45) a"
    and m: "re_match [Eos] t' = Some m" by blast
  from m have "t' = [] \<or> t' = [10]" by (auto split: if_splits)
  with a show ?R by auto
next
  assume ?R
  then obtain w where w: "w \<noteq> []" "list_all (\<lambda>c. is_word alnum c \<or> c = 45) w"
    and p: "p = w \<or> p = w @ [10]" by blast
  from p obtain t' where t': "p = w @ t'" "t' = [] \<or> t' = [10]" by auto
  then have "re_match [Eos] t' \<noteq> None" by auto
  from re_match_plus_complete[OF w this] show ?L
    by (simp add: player_pattern_def t'(1))
qed

lemma validate_player_cases:
  "validate_player alnum (Some p) =
     (if p = [] then Inl (NameError ''Player ID is not defined'')
      else if \<exists>w. w \<noteq> [] \<and> list_all (\<lambda>c. is_word alnum c \<or> c = 45) w \<and> (p = w \<or> p = w @ [10])
        then Inr p
      else Inl (ValueError ''Player is not an alphanumeric ID''))"
proof (cases "re_match (player_pattern alnum) p = None")
  case True
  with player_match_iff[of alnum p]
  have "\<not> (\<exists>w. w \<noteq> [] \<and> list_all (\<lambda>c. is_word alnum c \<or> c = 45) w \<and> (p = w \<or> p = w @ [10]))"
    by blast
  then show ?thesis using True unfolding validate_player_def by (simp only: option.case if_True if_False simp_thms)
next
  case False
  with player_match_iff[of alnum p]
  have "\<exists>w. w \<noteq> [] \<and> list_all (\<lambda>c. is_word alnum c \<or> c = 45) w \<and> (p = w \<or> p = w @ [10])"
    by blast
  then show ?thesis using False unfolding validate_player_def by (simp only: option.case if_True if_False simp_thms)
qed

text \<open>
  Claim C5, as the code has it. \<open>validate_player\<close> returns unchanged every non-empty
  string over \<open>[A-Za-z0-9_-]\<close>, and more generally every non-empty string of word
  characters and hyphens, where a word character is what \<open>\w\<close> matches in a \<open>str\<close>
  pattern: beyond ASCII, every character that Unicode classes as alphanumeric. A string with
  a character that is neither a word character nor a hyphen raises \<open>ValueError\<close>; a
  newline in the last position is not covered by this statement.
\<close>

theorem validate_player_word_chars:
  "(p \<noteq> [] \<and> (\<forall>c\<in>set p. ascii_word c \<or> c = 45) \<longrightarrow> validate_player alnum (Some p) = Inr p) \<and>
   (p \<noteq> [] \<and> (\<forall>c\<in>set p. is_word alnum c \<or> c = 45) \<longrightarrow> validate_player alnum (Some p) = Inr p) \<and>
   ((\<exists>i<length p. \<not> (is_word alnum (p ! i) \<or> p ! i = 45) \<and> \<not> (Suc i = length p \<and> p ! i = 10)) \<longrightarrow>
      validate_player alnum (Some p) = Inl (ValueError ''Player is not an alphanumeric ID''))"
proof (intro conjI impI)
  assume a: "p \<noteq> [] \<and> (\<forall>c\<in>set p. is_word alnum c \<or> c = 45)"
  then have "\<exists>w. w \<noteq> [] \<and> list_all (\<lambda>c. is_word alnum c \<or> c = 45) w \<and> (p = w \<or> p = w @ [10])"
    by (intro exI[of _ p]) (simp add: list_all_iff)
  with a show "validate_player alnum (Some p) = Inr p" by (simp add: validate_player_cases)
next
  assume a: "p \<noteq> [] \<and> (\<forall>c\<in>set p. ascii_word c \<or> c = 45)"
  have "\<And>c. ascii_word c \<Longrightarrow> is_word alnum c"
    by (auto simp: is_word_def ascii_word_def)
  with a have "\<exists>w. w \<noteq> [] \<and> list_all (\<lambda>c. is_word alnum c \<or> c = 45) w \<and> (p = w \<or> p = w @ [10])"
    by (intro exI[of _ p]) (auto simp: list_all_iff)
  with a show "validate_player alnum (Some p) = Inr p" by (simp add: validate_player_cases)
next
  assume "\<exists>i<length p. \<not> (is_word alnum (p ! i) \<or> p ! i = 45) \<and> \<not> (Suc i = length p \<and> p ! i = 10)"
  then obtain i where i: "i < length p" "\<not> (is_word alnum (p ! i) \<or> p ! i = 45)"
    "\<not> (Suc i = length p \<and> p ! i = 10)" by blast
  have ne: "p \<noteq> []" using i(1) by auto
  have "\<not> (\<exists>w. w \<noteq> [] \<and> list_all (\<lambda>c. is_word alnum c \<or> c = 45) w \<and> (p = w \<or> p = w @ [10]))"
  proof
    assume "\<exists>w. w \<noteq> [] \<and> list_all (\<lambda>c. is_word alnum c \<or> c = 45) w \<and> (p = w \<or> p = w @ [10])"
    then obtain w where w: "list_all (\<lambda>c. is_word alnum c \<or> c = 45) w" "p = w \<or> p = w @ [10]"
      by blast
    show False
    proof (cases "i < length w")
      case True
      then have "p ! i = w ! i" using w(2) by (auto simp: nth_append)
      moreover have "is_word alnum (w ! i) \<or> w ! i = 45"
        using w(1) True by (simp add: list_all_length)
      ultimately show False using i(2) by simp
    next
      case False
      with i(1) w(2) have "p = w @ [10]" "i = length w" by auto
      then have "Suc i = length p" "p ! i = 10" by auto
      with i(3) show False by simp
    qed
  qed
  with ne show "validate_player alnum (Some p) = Inl (ValueError ''Player is not an alphanumeric ID'')"
    by (simp add: validate_player_cases)
qed

theorem validate_player_word_chars_witness:
  "validate_player latin1_alnum (Some (str ''Player-1_a'')) = Inr (str ''Player-1_a'') \<and>
   validate_player latin1_alnum (Some (str ''p 1'')) = Inl (ValueError ''Player is not an alphanumeric ID'')"
proof -
  have 1: "str ''Player-1_a'' \<noteq> [] \<and> (\<forall>c\<in>set (str ''Player-1_a''). ascii_word c \<or> c = 45)"
    by (simp add: str_def ascii_word_def)
  have 2: "\<exists>i<length (str ''p 1''). \<not> (is_word latin1_alnum (str ''p 1'' ! i) \<or> str ''p 1'' ! i = 45) \<and>
      \<not> (Suc i = length (str ''p 1'') \<and> str ''p 1'' ! i = 10)"
    by (rule exI[of _ 1]) (simp add: str_def is_word_def ascii_word_def)
  from validate_player_word_chars[of "str ''Player-1_a''" latin1_alnum] 1
       validate_player_word_chars[of "str ''p 1''" latin1_alnum] 2
  show ?thesis by blast
qed

text \<open>
  Claim C5 as the specification states it fails: the one-letter string U+00E9 is outside
  \<open>[A-Za-z0-9_-]\<close> and is accepted, and so is \<open>p1\<close> followed by a newline.
\<close>

theorem validate_player_counterexample:
  "validate_player latin1_alnum (Some [233]) = Inr [233] \<and> \<not> ascii_word 233 \<and> (233::nat) \<noteq> 45 \<and>
   validate_player latin1_alnum (Some (str ''p1'' @ [10])) = Inr (str ''p1'' @ [10])"
  by (simp add: validate_player_def player_pattern_def str_def is_word_def ascii_word_def latin1_alnum_def)

section \<open>Placeholders\<close>

lemma re_match_lits_end:
  "re_match (map Lit l) t = Some n \<longleftrightarrow> (\<exists>t'. t = l @ t' \<and> n = length l)"
  using re_match_lits[of l "[]" t n] by simp

lemma re_match_lits_complete:
  "re_match ps t' \<noteq> None \<Longrightarrow> re_match (map Lit l @ ps) (l @ t') \<noteq> None"
  using re_match_lits[of l ps "l @ t'"] by fastforce

lemma placeholder_pattern_eq:
  "placeholder_pattern key =
     map Lit (str ''${{'') @ Plus is_space # map Lit key @ Plus is_space # map Lit (str ''}}'')"
  by (simp add: placeholder_pattern_def)

lemma length_placeholder:
  "length (placeholder key a b) = 5 + length a + length key + length b"
  by (simp add: placeholder_def str_def)

lemma placeholder_match_sound:
  assumes "re_match (placeholder_pattern key) t = Some n"
  shows "\<exists>a b rest. a \<noteq> [] \<and> b \<noteq> [] \<and> list_all is_space a \<and> list_all is_space b \<and>
           t = placeholder key a b @ rest \<and> n = length (placeholder key a b)"
proof -
  from assms obtain t1 m1 where t1: "t = str ''${{'' @ t1"
    and m1: "re_match (Plus is_space # map Lit key @ Plus is_space # map Lit (str ''}}'')) t1 = Some m1"
    and n: "n = length (str ''${{'') + m1"
    unfolding placeholder_pattern_eq re_match_lits by blast
  from re_match_plus_sound[OF m1] obtain a t2 m2 where t2: "t1 = a @ t2"
    and a: "a \<noteq> []" "list_all is_space a"
    and m2: "re_match (map Lit key @ Plus is_space # map Lit (str ''}}'')) t2 = Some m2"
    and n1: "m1 = length a + m2" by blast
  from m2 obtain t3 m3 where t3: "t2 = key @ t3"
    and m3: "re_match (Plus is_space # map Lit (str ''}}'')) t3 = Some m3"
    and n2: "m2 = length key + m3"
    unfolding re_match_lits by blast
  from re_match_plus_sound[OF m3] obtain b t4 m4 where t4: "t3 = b @ t4"
    and b: "b \<noteq> []" "list_all is_space b"
    and m4: "re_match (map Lit (str ''}}'')) t4 = Some m4"
    and n3: "m3 = length b + m4" by blast
  from m4 obtain rest where t5: "t4 = str ''}}'' @ rest" and n4: "m4 = length (str ''}}'')"
    unfolding re_match_lits_end by blast
  have "t = placeholder key a b @ rest"
    by (simp add: t1 t2 t3 t4 t5 placeholder_def)
  moreover have "n = length (placeholder key a b)"
    by (simp add: n n1 n2 n3 n4 placeholder_def)
  ultimately show ?thesis using a b by blast
qed

lemma placeholder_match_complete:
  assumes "a \<noteq> []" "b \<noteq> []" "list_all is_space a" "list_all is_space b"
  shows "re_match (placeholder_pattern key) (placeholder key a b @ rest) \<noteq> None"
proof -
  have "re_match (map Lit (str ''}}'')) (str ''}}'' @ rest) \<noteq> None"
    using re_match_lits_end[of "str ''}}''" "str ''}}'' @ rest"] by simp
  from re_match_plus_complete[OF assms(2) assms(4) this]
  have "re_match (Plus is_space # map Lit (str ''}}'')) (b @ str ''}}'' @ rest) \<noteq> None" .
  from re_match_lits_complete[OF this, of key]
  have "re_match (map Lit key @ Plus is_space # map Lit (str ''}}'')) (key @ b @ str ''}}'' @ rest) \<noteq> None" .
  from re_match_plus_complete[OF assms(1) assms(3) this]
  have "re_match (Plus is_space # map Lit key @ Plus is_space # map Lit (str ''}}''))
          (a @ key @ b @ str ''}}'' @ rest) \<noteq> None" .
  from re_match_lits_complete[OF this, of "str ''${{''"]
  show ?thesis by (simp add: placeholder_pattern_eq placeholder_def)
qed

lemma filter_spaces:
  "list_all is_space a \<Longrightarrow> filter (\<lambda>c. \<not> is_space c) a = []"
  by (induction a) auto

lemma nonspace_placeholder:
  assumes "list_all is_space a" "list_all is_space b"
  shows "filter (\<lambda>c. \<not> is_space c) (placeholder key a b) =
           str ''${{'' @ filter (\<lambda>c. \<not> is_space c) key @ str ''}}''"
proof -
  have "filter (\<lambda>c. \<not> is_space c) (str ''${{'') = str ''${{''"
       "filter (\<lambda>c. \<not> is_space c) (str ''}}'') = str ''}}''"
    by (simp_all add: str_def is_space_def)
  then show ?thesis using assms by (simp add: placeholder_def filter_spaces)
qed

lemma last_placeholder: "last (placeholder key a b) = 125"
  by (simp add: placeholder_def str_def)

lemma placeholder_prefix_eq:
  assumes "list_all is_space a" "list_all is_space b" "list_all is_space a'" "list_all is_space b'"
    and "placeholder key a b = placeholder key a' b' @ us"
  shows "us = []"
proof (rule ccontr)
  assume ne: "us \<noteq> []"
  have "filter (\<lambda>c. \<not> is_space c) (placeholder key a b) =
        filter (\<lambda>c. \<not> is_space c) (placeholder key a' b') @ filter (\<lambda>c. \<not> is_space c) us"
    using assms(5) by simp
  then have "filter (\<lambda>c. \<not> is_space c) us = []"
    using assms(1-4) by (simp add: nonspace_placeholder)
  then have "is_space (last us)" using ne by (metis (mono_tags, lifting) filter_empty_conv last_in_set)
  moreover have "last us = 125" using assms(5) ne last_placeholder[of key a b] by simp
  ultimately show False by (simp add: is_space_def)
qed

lemma placeholder_unique:
  assumes "list_all is_space a" "list_all is_space b" "list_all is_space a'" "list_all is_space b'"
    and "placeholder key a b @ r = placeholder key a' b' @ r'"
  shows "length (placeholder key a b) = length (placeholder key a' b')"
proof -
  from assms(5) obtain us where
    "placeholder key a b = placeholder key a' b' @ us \<or> placeholder key a b @ us = placeholder key a' b'"
    by (auto simp: append_eq_append_conv2)
  then show ?thesis
  proof
    assume e: "placeholder key a b = placeholder key a' b' @ us"
    from placeholder_prefix_eq[OF assms(1-4) e] e show ?thesis by simp
  next
    assume e: "placeholder key a b @ us = placeholder key a' b'"
    from placeholder_prefix_eq[OF assms(3,4,1,2) e[symmetric]] e show ?thesis by simp
  qed
qed

lemma placeholder_match:
  assumes "a \<noteq> []" "b \<noteq> []" "list_all is_space a" "list_all is_space b"
  shows "re_match (placeholder_pattern key) (placeholder key a b @ rest) =
           Some (length (placeholder key a b))"
proof -
  from placeholder_match_complete[OF assms] obtain n where
    n: "re_match (placeholder_pattern key) (placeholder key a b @ rest) = Some n" by blast
  from placeholder_match_sound[OF n] obtain a' b' rest' where
    s: "list_all is_space a'" "list_all is_space b'"
       "placeholder key a b @ rest = placeholder key a' b' @ rest'"
       "n = length (placeholder key a' b')" by blast
  from placeholder_unique[OF assms(3,4) s(1,2,3)] s(4) n show ?thesis by simp
qed

lemma placeholder_at_iff:
  "placeholder_at key t i \<longleftrightarrow> re_match (placeholder_pattern key) (drop i t) \<noteq> None"
proof
  assume "placeholder_at key t i"
  then show "re_match (placeholder_pattern key) (drop i t) \<noteq> None"
    unfolding placeholder_at_def using placeholder_match_complete by fastforce
next
  assume "re_match (placeholder_pattern key) (drop i t) \<noteq> None"
  then obtain n where "re_match (placeholder_pattern key) (drop i t) = Some n" by blast
  from placeholder_match_sound[OF this] show "placeholder_at key t i"
    unfolding placeholder_at_def by blast
qed

section \<open>Substitution\<close>

lemma re_sub_no_match:
  "(\<forall>i. re_match ps (drop i t) = None) \<Longrightarrow> re_sub ps v t = t"
proof (induction t)
  case Nil
  then show ?case by simp
next
  case (Cons c cs)
  from Cons.prems have 0: "re_match ps (c # cs) = None" by (metis drop0)
  have "\<forall>i. re_match ps (drop i cs) = None"
  proof
    fix i
    from Cons.prems have "re_match ps (drop (Suc i) (c # cs)) = None" by blast
    then show "re_match ps (drop i cs) = None" by simp
  qed
  with Cons.IH 0 show ?case by simp
qed

lemma re_sub_skip:
  "(\<forall>i<length pre. re_match ps (drop i (pre @ s)) = None) \<Longrightarrow>
     re_sub ps v (pre @ s) = pre @ re_sub ps v s"
proof (induction pre)
  case Nil
  then show ?case by simp
next
  case (Cons c cs)
  from Cons.prems have 0: "re_match ps (c # cs @ s) = None" by fastforce
  have "\<forall>i<length cs. re_match ps (drop i (cs @ s)) = None"
  proof (intro allI impI)
    fix i assume "i < length cs"
    then have "Suc i < length (c # cs)" by simp
    with Cons.prems have "re_match ps (drop (Suc i) ((c # cs) @ s)) = None" by blast
    then show "re_match ps (drop i (cs @ s)) = None" by simp
  qed
  with Cons.IH 0 show ?case by simp
qed

lemma re_sub_match:
  "re_match ps s = Some n \<Longrightarrow> 0 < n \<Longrightarrow> s \<noteq> [] \<Longrightarrow> re_sub ps v s = v @ re_sub ps v (drop n s)"
  by (cases s; cases n) auto

lemma re_sub_placeholder:
  assumes "a \<noteq> []" "b \<noteq> []" "list_all is_space a" "list_all is_space b"
  shows "re_sub (placeholder_pattern key) v (placeholder key a b @ rest) =
           v @ re_sub (placeholder_pattern key) v rest"
proof -
  have ne: "placeholder key a b @ rest \<noteq> []" by (simp add: placeholder_def str_def)
  have pos: "0 < length (placeholder key a b)" by (simp add: length_placeholder)
  from re_sub_match[OF placeholder_match[OF assms] pos ne] show ?thesis by simp
qed

lemma placeholder_pattern_empty: "re_match (placeholder_pattern key) [] = None"
  by (simp add: placeholder_pattern_def str_def)


section \<open>Rendering\<close>

lemma no_placeholder_without_space:
  "re_match (placeholder_pattern key) (drop i (placeholder key [] [])) = None"
proof (rule ccontr)
  assume "re_match (placeholder_pattern key) (drop i (placeholder key [] [])) \<noteq> None"
  then obtain n where "re_match (placeholder_pattern key) (drop i (placeholder key [] [])) = Some n"
    by blast
  from placeholder_match_sound[OF this] obtain a b rest where
    ab: "a \<noteq> []" "b \<noteq> []" and eq: "drop i (placeholder key [] []) = placeholder key a b @ rest"
    by blast
  have "length (placeholder key a b @ rest) \<le> length (placeholder key [] [])"
    using arg_cong[OF eq, of length] by simp
  moreover have "0 < length a" "0 < length b" using ab by simp_all
  ultimately show False by (simp add: length_placeholder)
qed

text \<open>
  Claim C4, as the code has it. The pattern asks for at least one whitespace character on
  each side of the key: a placeholder written with any non-empty runs of whitespace is
  replaced by the value, and a placeholder written without whitespace is left as it is.
\<close>

theorem prompt_input_whitespace:
  "(a \<noteq> [] \<and> b \<noteq> [] \<and> list_all is_space a \<and> list_all is_space b \<longrightarrow>
      prompt_input (placeholder key a b) key v = v) \<and>
   prompt_input (placeholder key [] []) key v = placeholder key [] []"
proof (intro conjI impI)
  assume "a \<noteq> [] \<and> b \<noteq> [] \<and> list_all is_space a \<and> list_all is_space b"
  then have "re_sub (placeholder_pattern key) v (placeholder key a b @ []) =
               v @ re_sub (placeholder_pattern key) v []"
    by (intro re_sub_placeholder) simp_all
  then show "prompt_input (placeholder key a b) key v = v"
    by (simp add: prompt_input_def placeholder_pattern_empty)
next
  show "prompt_input (placeholder key [] []) key v = placeholder key [] []"
    unfolding prompt_input_def by (rule re_sub_no_match) (simp add: no_placeholder_without_space)
qed

theorem prompt_input_whitespace_witness:
  "prompt_input (str ''${{ X }}'') (str ''X'') (str ''Y'') = str ''Y'' \<and>
   prompt_input (str ''${{'' @ [9, 10] @ str ''X'' @ [160] @ str ''}}'') (str ''X'') (str ''Y'') = str ''Y''"
proof -
  have 1: "str '' '' \<noteq> [] \<and> str '' '' \<noteq> [] \<and> list_all is_space (str '' '') \<and> list_all is_space (str '' '')"
    by (simp add: str_def is_space_def)
  have 2: "[9, 10] \<noteq> [] \<and> [160] \<noteq> [] \<and> list_all is_space [9, 10] \<and> list_all is_space [160]"
    by (simp add: is_space_def)
  from prompt_input_whitespace[of "str '' ''" "str '' ''" "str ''X''" "str ''Y''"] 1
  have "prompt_input (placeholder (str ''X'') (str '' '') (str '' '')) (str ''X'') (str ''Y'') = str ''Y''"
    by blast
  moreover from prompt_input_whitespace[of "[9, 10]" "[160]" "str ''X''" "str ''Y''"] 2
  have "prompt_input (placeholder (str ''X'') [9, 10] [160]) (str ''X'') (str ''Y'') = str ''Y''"
    by blast
  ultimately show ?thesis by (simp add: placeholder_def str_def)
qed

text \<open>
  Claim C4 as the specification states it fails: without whitespace inside the braces
  nothing is replaced.
\<close>

theorem prompt_input_whitespace_counterexample:
  "prompt_input (str ''${{X}}'') (str ''X'') (str ''Y'') = str ''${{X}}'' \<and>
   prompt_input (str ''${{X}}'') (str ''X'') (str ''Y'') \<noteq> str ''Y'' \<and>
   prompt_input (str ''${{X}}'') (str ''X'') (str ''Y'') \<noteq>
     prompt_input (str ''${{ X }}'') (str ''X'') (str ''Y'')"
  by (simp add: prompt_input_def placeholder_pattern_def str_def is_space_def)

text \<open>
  Claim C8. A placeholder for the key is \<open>${{\<close>, whitespace, the characters of the key
  themselves, whitespace, \<open>}}\<close>, with at least one whitespace character on each side as in
  the comment of the source (C4 is about the form without whitespace). Rendering goes
  through the template from the left: the text before the first placeholder is kept, the
  placeholder is replaced by the value as it is, and rendering goes on behind the
  placeholder, so every placeholder is replaced and the inserted value is not read again.
  A template without a placeholder for the key is returned unchanged. The key \<open>A.B\<close>
  does not match \<open>AxB\<close>, and a value with a backslash and a digit is inserted
  character by character.
\<close>

theorem prompt_input_replaces_every_placeholder:
  "((\<forall>i. \<not> placeholder_at key t i) \<longrightarrow> prompt_input t key v = t) \<and>
   (a \<noteq> [] \<and> b \<noteq> [] \<and> list_all is_space a \<and> list_all is_space b \<and>
    (\<forall>i<length pre. \<not> placeholder_at key (pre @ placeholder key a b @ rest) i) \<longrightarrow>
      prompt_input (pre @ placeholder key a b @ rest) key v = pre @ v @ prompt_input rest key v) \<and>
   prompt_input (str ''${{ AxB }}'') (str ''A.B'') v = str ''${{ AxB }}'' \<and>
   prompt_input (str ''${{ X }}'') (str ''X'') [92, 49] = [92, 49]"
proof (intro conjI impI)
  assume "\<forall>i. \<not> placeholder_at key t i"
  then have "\<forall>i. re_match (placeholder_pattern key) (drop i t) = None"
    by (simp add: placeholder_at_iff)
  then show "prompt_input t key v = t"
    unfolding prompt_input_def by (rule re_sub_no_match)
next
  assume h: "a \<noteq> [] \<and> b \<noteq> [] \<and> list_all is_space a \<and> list_all is_space b \<and>
    (\<forall>i<length pre. \<not> placeholder_at key (pre @ placeholder key a b @ rest) i)"
  then have "\<forall>i<length pre. re_match (placeholder_pattern key) (drop i (pre @ placeholder key a b @ rest)) = None"
    by (simp add: placeholder_at_iff)
  then have "re_sub (placeholder_pattern key) v (pre @ placeholder key a b @ rest) =
               pre @ re_sub (placeholder_pattern key) v (placeholder key a b @ rest)"
    by (rule re_sub_skip)
  also have "re_sub (placeholder_pattern key) v (placeholder key a b @ rest) =
               v @ re_sub (placeholder_pattern key) v rest"
    using h by (intro re_sub_placeholder) simp_all
  finally show "prompt_input (pre @ placeholder key a b @ rest) key v = pre @ v @ prompt_input rest key v"
    by (simp add: prompt_input_def)
next
  show "prompt_input (str ''${{ AxB }}'') (str ''A.B'') v = str ''${{ AxB }}''"
    by (simp add: prompt_input_def placeholder_pattern_def str_def is_space_def)
next
  show "prompt_input (str ''${{ X }}'') (str ''X'') [92, 49] = [92, 49]"
    by (simp add: prompt_input_def placeholder_pattern_def str_def is_space_def)
qed

theorem prompt_input_replaces_every_placeholder_witness:
  "prompt_input (str ''no braces'') (str ''X'') (str ''Y'') = str ''no braces'' \<and>
   prompt_input (str ''a ${{ X }} b ${{  X  }}.'') (str ''X'') (str ''${{ X }}'') =
     str ''a ${{ X }} b ${{ X }}.''"
proof -
  have 1: "\<forall>i. \<not> placeholder_at (str ''X'') (str ''no braces'') i"
  proof
    fix i :: nat
    have "i < 9 \<or> 9 \<le> i" by arith
    then show "\<not> placeholder_at (str ''X'') (str ''no braces'') i"
    proof
      assume "i < 9"
      then have "i \<in> {0, 1, 2, 3, 4, 5, 6, 7, 8}" by auto
      then show ?thesis
        by (auto simp: placeholder_at_iff placeholder_pattern_def str_def)
    next
      assume "9 \<le> i"
      then show ?thesis
        by (simp add: placeholder_at_iff placeholder_pattern_def str_def)
    qed
  qed
  have sp: "str '' '' \<noteq> [] \<and> list_all is_space (str '' '')"
           "str ''  '' \<noteq> [] \<and> list_all is_space (str ''  '')"
    by (simp_all add: str_def is_space_def)
  have 2: "\<forall>i<length (str ''a ''). \<not> placeholder_at (str ''X'')
             (str ''a '' @ placeholder (str ''X'') (str '' '') (str '' '') @ str '' b ${{  X  }}.'') i"
  proof (intro allI impI)
    fix i assume "i < length (str ''a '')"
    then have "i \<in> {0, 1}" by (auto simp: str_def)
    then show "\<not> placeholder_at (str ''X'')
             (str ''a '' @ placeholder (str ''X'') (str '' '') (str '' '') @ str '' b ${{  X  }}.'') i"
      by (auto simp: placeholder_at_iff placeholder_pattern_def placeholder_def str_def)
  qed
  have 3: "\<forall>i<length (str '' b ''). \<not> placeholder_at (str ''X'')
             (str '' b '' @ placeholder (str ''X'') (str ''  '') (str ''  '') @ str ''.'') i"
  proof (intro allI impI)
    fix i assume "i < length (str '' b '')"
    then have "i \<in> {0, 1, 2}" by (auto simp: str_def)
    then show "\<not> placeholder_at (str ''X'')
             (str '' b '' @ placeholder (str ''X'') (str ''  '') (str ''  '') @ str ''.'') i"
      by (auto simp: placeholder_at_iff placeholder_pattern_def placeholder_def str_def)
  qed
  have 4: "\<forall>i. \<not> placeholder_at (str ''X'') (str ''.'') i"
  proof
    fix i :: nat
    show "\<not> placeholder_at (str ''X'') (str ''.'') i"
      by (cases i) (simp_all add: placeholder_at_iff placeholder_pattern_def str_def)
  qed
  note main = prompt_input_replaces_every_placeholder
  from main[of "str ''X''" "str ''no braces''" "str ''Y''"] 1
  have A: "prompt_input (str ''no braces'') (str ''X'') (str ''Y'') = str ''no braces''" by blast
  from main[of "str ''X''" _ "str ''${{ X }}''" "str '' ''" "str '' ''" "str ''a ''" "str '' b ${{  X  }}.''"] sp 2
  have B: "prompt_input (str ''a '' @ placeholder (str ''X'') (str '' '') (str '' '') @ str '' b ${{  X  }}.'')
             (str ''X'') (str ''${{ X }}'') =
           str ''a '' @ str ''${{ X }}'' @ prompt_input (str '' b ${{  X  }}.'') (str ''X'') (str ''${{ X }}'')"
    by blast
  from main[of "str ''X''" _ "str ''${{ X }}''" "str ''  ''" "str ''  ''" "str '' b ''" "str ''.''"] sp 3
  have C: "prompt_input (str '' b '' @ placeholder (str ''X'') (str ''  '') (str ''  '') @ str ''.'')
             (str ''X'') (str ''${{ X }}'') =
           str '' b '' @ str ''${{ X }}'' @ prompt_input (str ''.'') (str ''X'') (str ''${{ X }}'')"
    by blast
  from main[of "str ''X''" "str ''.''" "str ''${{ X }}''"] 4
  have D: "prompt_input (str ''.'') (str ''X'') (str ''${{ X }}'') = str ''.''" by blast
  have e1: "str ''a ${{ X }} b ${{  X  }}.'' =
            str ''a '' @ placeholder (str ''X'') (str '' '') (str '' '') @ str '' b ${{  X  }}.''"
    by (simp add: placeholder_def str_def)
  have e2: "str '' b ${{  X  }}.'' =
            str '' b '' @ placeholder (str ''X'') (str ''  '') (str ''  '') @ str ''.''"
    by (simp add: placeholder_def str_def)
  have "prompt_input (str ''a ${{ X }} b ${{  X  }}.'') (str ''X'') (str ''${{ X }}'') =
          str ''a '' @ str ''${{ X }}'' @ str '' b '' @ str ''${{ X }}'' @ str ''.''"
    unfolding e1 B unfolding e2 C D by simp
  also have "\<dots> = str ''a ${{ X }} b ${{ X }}.''" by (simp add: str_def)
  finally show ?thesis using A by simp
qed

section \<open>Validation of the battle input\<close>

lemma validate_input_dict:
  assumes "s \<noteq> []" "loads s = Some (PyDict items)"
  shows "validate_input loads dumps (Some s) =
     (if \<not> has_key (str ''player_data'') items
        then Inl (ValueError ''Battle input is missing player data'')
      else if \<not> has_key (str ''battle_state'') items
        then Inl (ValueError ''Battle input is missing battle state'')
      else if \<not> has_key (str ''request_data'') items
        then Inl (ValueError ''Battle input is missing request data'')
      else if \<not> has_key (str ''failed_actions'') items
        then Inl (ValueError ''Battle input is missing failed actions'')
      else Inr (dumps (PyDict items)))"
  using assms by (simp add: validate_input_def)

text \<open>
  Claim C6. Text that \<open>json.loads\<close> rejects raises \<open>ValueError\<close>. Text that parses to
  anything but a \<open>dict\<close> (an array, a scalar) does not: the \<open>raise ... from e\<close> of the
  source reads the unbound \<open>e\<close>, and what is raised is \<open>UnboundLocalError\<close>, which is not a
  \<open>ValueError\<close>.
\<close>

theorem validate_input_not_object:
  assumes "s \<noteq> []"
  shows "(loads s = None \<longrightarrow>
            validate_input loads dumps (Some s) = Inl (ValueError ''Battle input is not valid JSON'')) \<and>
         (\<forall>v. loads s = Some v \<and> (\<forall>items. v \<noteq> PyDict items) \<longrightarrow>
            validate_input loads dumps (Some s) = Inl (UnboundLocalError ''e''))"
proof (intro conjI allI impI)
  assume "loads s = None"
  with assms show "validate_input loads dumps (Some s) = Inl (ValueError ''Battle input is not valid JSON'')"
    by (simp add: validate_input_def)
next
  fix v assume "loads s = Some v \<and> (\<forall>items. v \<noteq> PyDict items)"
  with assms show "validate_input loads dumps (Some s) = Inl (UnboundLocalError ''e'')"
    by (cases v) (simp_all add: validate_input_def)
qed

theorem validate_input_not_object_witness:
  "validate_input sample_loads sample_dumps (Some (str ''{'')) =
     Inl (ValueError ''Battle input is not valid JSON'') \<and>
   validate_input sample_loads sample_dumps (Some (str ''[]'')) = Inl (UnboundLocalError ''e'') \<and>
   validate_input sample_loads sample_dumps (Some (str ''1'')) = Inl (UnboundLocalError ''e'')"
proof -
  have l1: "sample_loads (str ''{'') = None"
    by (simp add: sample_loads_def sample_text_def sample_partial_text_def str_def)
  have l2: "sample_loads (str ''[]'') = Some (PyList []) \<and> (\<forall>items. PyList [] \<noteq> (PyDict items :: unit pyval))"
    by (simp add: sample_loads_def sample_text_def sample_partial_text_def str_def)
  have l3: "sample_loads (str ''1'') = Some (PyInt 1) \<and> (\<forall>items. PyInt 1 \<noteq> (PyDict items :: unit pyval))"
    by (simp add: sample_loads_def sample_text_def sample_partial_text_def str_def)
  have ne: "str ''{'' \<noteq> []" "str ''[]'' \<noteq> []" "str ''1'' \<noteq> []" by (simp_all add: str_def)
  from validate_input_not_object[OF ne(1), of sample_loads sample_dumps] l1
       validate_input_not_object[OF ne(2), of sample_loads sample_dumps] l2
       validate_input_not_object[OF ne(3), of sample_loads sample_dumps] l3
  show ?thesis by blast
qed

text \<open>
  Claim C7. For a text that parses to an object with the four required keys,
  \<open>validate_input\<close> returns \<open>json.dumps\<close> of the parsed object, unchanged; where
  \<open>json.loads\<close> reads back what \<open>json.dumps\<close> wrote for this object (a property of the
  \<open>json\<close> module), the result parses back to the same object, so to the same keys with
  equal values. For an object that lacks one of the four keys it raises \<open>ValueError\<close>
  with one of the four messages about a missing part.
\<close>

theorem validate_input_object:
  assumes "s \<noteq> []" "loads s = Some (PyDict items)"
  shows "((\<forall>k\<in>set required_keys. has_key k items) \<longrightarrow>
            validate_input loads dumps (Some s) = Inr (dumps (PyDict items)) \<and>
            (loads (dumps (PyDict items)) = Some (PyDict items) \<longrightarrow>
               (\<exists>out. validate_input loads dumps (Some s) = Inr out \<and>
                      loads out = Some (PyDict items)))) \<and>
         ((\<exists>k\<in>set required_keys. \<not> has_key k items) \<longrightarrow>
            (\<exists>msg\<in>set missing_key_messages.
               validate_input loads dumps (Some s) = Inl (ValueError msg)))"
proof -
  note eq = validate_input_dict[where s = s and loads = loads and items = items and dumps = dumps]
  show ?thesis
    using assms unfolding required_keys_def missing_key_messages_def by (simp add: eq)
qed

theorem validate_input_object_witness:
  "validate_input sample_loads sample_dumps (Some sample_text) = Inr sample_text \<and>
   sample_loads sample_text = Some sample_object \<and>
   validate_input sample_loads sample_dumps (Some sample_partial_text) =
     Inl (ValueError ''Battle input is missing battle state'')"
proof -
  have ne: "sample_text \<noteq> []" "sample_partial_text \<noteq> []"
    by (simp_all add: sample_text_def sample_partial_text_def)
  have l1: "sample_loads sample_text = Some (PyDict
     [(str ''player_data'', PyDict []), (str ''battle_state'', PyDict []),
      (str ''request_data'', PyDict []), (str ''failed_actions'', PyList [])])"
    by (simp add: sample_loads_def sample_object_def)
  have l2: "sample_loads sample_partial_text = Some (PyDict [(str ''player_data'', PyDict [])])"
    by (simp add: sample_loads_def sample_text_def sample_partial_text_def str_def)
  have k1: "\<forall>k\<in>set required_keys. has_key k
     [(str ''player_data'', PyDict []), (str ''battle_state'', PyDict []),
      (str ''request_data'', PyDict []), (str ''failed_actions'', PyList [] :: unit pyval)]"
    by (simp add: required_keys_def has_key_def)
  have k2: "\<exists>k\<in>set required_keys. \<not> has_key k [(str ''player_data'', PyDict [] :: unit pyval)]"
    by (simp add: required_keys_def has_key_def str_def)
  have d: "sample_dumps (PyDict
     [(str ''player_data'', PyDict []), (str ''battle_state'', PyDict []),
      (str ''request_data'', PyDict []), (str ''failed_actions'', PyList [])]) = sample_text"
    by (simp add: sample_dumps_def sample_object_def)
  from validate_input_object[where s = sample_text and loads = sample_loads and dumps = sample_dumps
         and items = "[(str ''player_data'', PyDict []), (str ''battle_state'', PyDict []),
      (str ''request_data'', PyDict []), (str ''failed_actions'', PyList [])]"] ne(1) l1 k1 d
  have A: "validate_input sample_loads sample_dumps (Some sample_text) = Inr sample_text" by simp
  from validate_input_object[where s = sample_partial_text and loads = sample_loads
         and dumps = sample_dumps and items = "[(str ''player_data'', PyDict [])]"] ne(2) l2 k2
  obtain msg where "validate_input sample_loads sample_dumps (Some sample_partial_text) = Inl (ValueError msg)"
    by blast
  moreover have "validate_input sample_loads sample_dumps (Some sample_partial_text) =
     Inl (ValueError ''Battle input is missing battle state'')"
    using ne(2) l2
    by (simp add: validate_input_dict[where s = sample_partial_text and loads = sample_loads
          and items = "[(str ''player_data'', PyDict [])]"] has_key_def str_def)
  ultimately show ?thesis using A l1 by (simp add: sample_object_def)
qed

section \<open>Actions\<close>

lemma and_then_return: "and_then (return x) f = f x"
  by (rule ext) (simp add: and_then_def return_def)

lemma and_then_assoc: "and_then (and_then m f) g = and_then m (\<lambda>x. and_then (f x) g)"
  by (rule ext) (simp add: and_then_def split: prod.splits sum.splits)

lemma and_then_InrE:
  assumes "and_then m f c = (Inr y, c')"
  obtains x c1 where "m c = (Inr x, c1)" "f x c1 = (Inr y, c')"
  using assms by (auto simp: and_then_def split: prod.splits sum.splits)

section \<open>Reconciling files\<close>

lemma ensure_file_found:
  assumes "files_list (api c) (remote c) = (Inr listing, r1)"
    and "find (\<lambda>f. file_display_name f = Some d) listing = Some f"
  shows "ensure_file gt d p c = (Inr f, c\<lparr>remote := r1, calls := calls c @ [FilesList]\<rparr>)"
  using assms by (simp add: ensure_file_def and_then_def remote_call_def return_def)

lemma ensure_file_upload:
  assumes "files_list (api c) (remote c) = (Inr listing, r1)"
    and "find (\<lambda>f. file_display_name f = Some d) listing = None"
    and "files_upload (api c) p \<lparr>up_display_name = d, up_mime_type = gt p\<rparr> r1 = (res, r2)"
  shows "ensure_file gt d p c =
           (res, c\<lparr>remote := r2,
                   calls := calls c @ [FilesList,
                     FilesUpload p \<lparr>up_display_name = d, up_mime_type = gt p\<rparr>]\<rparr>)"
  using assms by (simp add: ensure_file_def and_then_def remote_call_def Let_def)

lemma find_first:
  assumes "\<forall>g\<in>set pre. \<not> P g" "P f"
  shows "find P (pre @ f # post) = Some f"
  using assms by (induction pre) auto

text \<open>
  Claim C10. When the listing holds several files with the requested display name,
  \<open>ensure_file\<close> returns the first of them in the order of the listing, and the only call
  it issues is the listing: no upload. The result is the same file for every client whose
  listing is this one.
\<close>

theorem ensure_file_first_match:
  fixes c :: "'r client"
  assumes "files_list (api c) (remote c) = (Inr (pre @ f # post), r1)"
    and "\<forall>g\<in>set pre. file_display_name g \<noteq> Some d"
    and "file_display_name f = Some d"
  shows "ensure_file gt d p c = (Inr f, c\<lparr>remote := r1, calls := calls c @ [FilesList]\<rparr>) \<and>
         (\<forall>(c2 :: 'r client) r2. files_list (api c2) (remote c2) = (Inr (pre @ f # post), r2) \<longrightarrow>
            fst (ensure_file gt d p c2) = Inr f \<and>
            calls (snd (ensure_file gt d p c2)) = calls c2 @ [FilesList])"
proof -
  have fnd: "find (\<lambda>f. file_display_name f = Some d) (pre @ f # post) = Some f"
    using assms(2,3) by (intro find_first) simp_all
  show ?thesis
  proof (intro conjI allI impI)
    show "ensure_file gt d p c = (Inr f, c\<lparr>remote := r1, calls := calls c @ [FilesList]\<rparr>)"
      by (rule ensure_file_found[OF assms(1) fnd])
  next
    fix c2 :: "'r client" and r2
    assume l: "files_list (api c2) (remote c2) = (Inr (pre @ f # post), r2)"
    show "fst (ensure_file gt d p c2) = Inr f"
      by (simp add: ensure_file_found[OF l fnd])
    show "calls (snd (ensure_file gt d p c2)) = calls c2 @ [FilesList]"
      by (simp add: ensure_file_found[OF l fnd])
  qed
qed

theorem ensure_file_first_match_witness:
  "ensure_file (\<lambda>p. None) (str ''data_x_json'') (str ''x.json'') duplicate_client =
     (Inr \<lparr>file_name = str ''files/b'', file_display_name = Some (str ''data_x_json''), file_mime_type = None\<rparr>,
      duplicate_client\<lparr>remote := remote duplicate_client, calls := calls duplicate_client @ [FilesList]\<rparr>)"
proof -
  have l: "files_list (api duplicate_client) (remote duplicate_client) =
     (Inr ([\<lparr>file_name = str ''files/a'', file_display_name = None, file_mime_type = None\<rparr>] @
        \<lparr>file_name = str ''files/b'', file_display_name = Some (str ''data_x_json''), file_mime_type = None\<rparr> #
        [\<lparr>file_name = str ''files/c'', file_display_name = Some (str ''data_x_json''), file_mime_type = None\<rparr>]),
      remote duplicate_client)"
    by (simp add: duplicate_client_def memory_api_def)
  have n: "\<forall>g\<in>set [\<lparr>file_name = str ''files/a'', file_display_name = None, file_mime_type = None\<rparr>].
             file_display_name g \<noteq> Some (str ''data_x_json'')"
    by simp
  have y: "file_display_name \<lparr>file_name = str ''files/b'', file_display_name = Some (str ''data_x_json''),
             file_mime_type = None\<rparr> = Some (str ''data_x_json'')"
    by simp
  from ensure_file_first_match[OF l n y] show ?thesis by blast
qed

text \<open>
  Claim C1. When the listing holds a file with the requested display name,
  \<open>ensure_file\<close> returns the first such file and issues the listing call only. When no
  listed file has that name, it issues the listing call and one upload, and returns what
  the upload returned. When the service then lists the uploaded file as the first one
  with that display name, a second call returns the same file and issues a listing call
  only: the two calls issue two listing calls and one upload.
\<close>

theorem ensure_file_idempotent:
  "(\<forall>listing r1 f.
      files_list (api c) (remote c) = (Inr listing, r1) \<and>
      find (\<lambda>g. file_display_name g = Some d) listing = Some f \<longrightarrow>
        ensure_file gt d p c = (Inr f, c\<lparr>remote := r1, calls := calls c @ [FilesList]\<rparr>) \<and>
        f \<in> set listing \<and> file_display_name f = Some d) \<and>
   (\<forall>listing r1 f r2.
      files_list (api c) (remote c) = (Inr listing, r1) \<and>
      (\<forall>g\<in>set listing. file_display_name g \<noteq> Some d) \<and>
      files_upload (api c) p \<lparr>up_display_name = d, up_mime_type = gt p\<rparr> r1 = (Inr f, r2) \<longrightarrow>
        ensure_file gt d p c =
          (Inr f, c\<lparr>remote := r2, calls := calls c @
             [FilesList, FilesUpload p \<lparr>up_display_name = d, up_mime_type = gt p\<rparr>]\<rparr>) \<and>
        (\<forall>listing2 r3.
           files_list (api c) r2 = (Inr listing2, r3) \<and>
           find (\<lambda>g. file_display_name g = Some d) listing2 = Some f \<longrightarrow>
             ensure_file gt d p (snd (ensure_file gt d p c)) =
               (Inr f, c\<lparr>remote := r3, calls := calls c @
                  [FilesList, FilesUpload p \<lparr>up_display_name = d, up_mime_type = gt p\<rparr>,
                   FilesList]\<rparr>) \<and>
             length (filter is_upload (drop (length (calls c))
               (calls (snd (ensure_file gt d p (snd (ensure_file gt d p c))))))) = 1))"
proof (intro conjI allI impI; (elim conjE)?)
  fix listing r1 f
  assume l: "files_list (api c) (remote c) = (Inr listing, r1)"
    and f: "find (\<lambda>g. file_display_name g = Some d) listing = Some f"
  show "ensure_file gt d p c = (Inr f, c\<lparr>remote := r1, calls := calls c @ [FilesList]\<rparr>)"
    by (rule ensure_file_found[OF l f])
  from f show "f \<in> set listing" by (auto simp: find_Some_iff)
  from f show "file_display_name f = Some d" by (auto simp: find_Some_iff)
next
  fix listing r1 f r2
  assume l: "files_list (api c) (remote c) = (Inr listing, r1)"
    and n: "\<forall>g\<in>set listing. file_display_name g \<noteq> Some d"
    and u: "files_upload (api c) p \<lparr>up_display_name = d, up_mime_type = gt p\<rparr> r1 = (Inr f, r2)"
  from n have fn: "find (\<lambda>g. file_display_name g = Some d) listing = None"
    by (simp add: find_None_iff)
  show first: "ensure_file gt d p c =
          (Inr f, c\<lparr>remote := r2, calls := calls c @
             [FilesList, FilesUpload p \<lparr>up_display_name = d, up_mime_type = gt p\<rparr>]\<rparr>)"
    by (rule ensure_file_upload[where gt = gt and p = p, OF l fn u])
  fix listing2 r3
  assume l2: "files_list (api c) r2 = (Inr listing2, r3)"
    and f2: "find (\<lambda>g. file_display_name g = Some d) listing2 = Some f"
  let ?c1 = "c\<lparr>remote := r2, calls := calls c @
             [FilesList, FilesUpload p \<lparr>up_display_name = d, up_mime_type = gt p\<rparr>]\<rparr>"
  have l2': "files_list (api ?c1) (remote ?c1) = (Inr listing2, r3)" using l2 by simp
  show second: "ensure_file gt d p (snd (ensure_file gt d p c)) =
               (Inr f, c\<lparr>remote := r3, calls := calls c @
                  [FilesList, FilesUpload p \<lparr>up_display_name = d, up_mime_type = gt p\<rparr>,
                   FilesList]\<rparr>)"
    unfolding first snd_conv ensure_file_found[OF l2' f2] by simp
  show "length (filter is_upload (drop (length (calls c))
               (calls (snd (ensure_file gt d p (snd (ensure_file gt d p c))))))) = 1"
    unfolding second by simp
qed


theorem ensure_file_idempotent_witness:
  "ensure_file (\<lambda>p. Some (str ''application/json'')) (str ''data_x_json'') (str ''x.json'')
     (memory_client \<lparr>response_text = None\<rparr>) =
     (Inr \<lparr>file_name = str ''files/data_x_json'', file_display_name = Some (str ''data_x_json''),
           file_mime_type = Some (str ''application/json'')\<rparr>,
      (memory_client \<lparr>response_text = None\<rparr>)
        \<lparr>remote := \<lparr>svc_files = [\<lparr>file_name = str ''files/data_x_json'',
                      file_display_name = Some (str ''data_x_json''),
                      file_mime_type = Some (str ''application/json'')\<rparr>], svc_caches = []\<rparr>,
         calls := calls (memory_client \<lparr>response_text = None\<rparr>) @
           [FilesList, FilesUpload (str ''x.json'')
              \<lparr>up_display_name = str ''data_x_json'',
               up_mime_type = Some (str ''application/json'')\<rparr>]\<rparr>) \<and>
   fst (ensure_file (\<lambda>p. Some (str ''application/json'')) (str ''data_x_json'') (str ''x.json'')
     (snd (ensure_file (\<lambda>p. Some (str ''application/json'')) (str ''data_x_json'') (str ''x.json'')
        (memory_client \<lparr>response_text = None\<rparr>)))) =
     Inr \<lparr>file_name = str ''files/data_x_json'', file_display_name = Some (str ''data_x_json''),
           file_mime_type = Some (str ''application/json'')\<rparr> \<and>
   length (filter is_upload (drop (length (calls (memory_client \<lparr>response_text = None\<rparr>)))
     (calls (snd (ensure_file (\<lambda>p. Some (str ''application/json'')) (str ''data_x_json'') (str ''x.json'')
       (snd (ensure_file (\<lambda>p. Some (str ''application/json'')) (str ''data_x_json'') (str ''x.json'')
          (memory_client \<lparr>response_text = None\<rparr>)))))))) = 1"
proof -
  let ?c = "memory_client \<lparr>response_text = None\<rparr>"
  let ?f = "\<lparr>file_name = str ''files/data_x_json'', file_display_name = Some (str ''data_x_json''),
           file_mime_type = Some (str ''application/json'')\<rparr>"
  let ?r2 = "\<lparr>svc_files = [?f], svc_caches = []\<rparr>"
  have l: "files_list (api ?c) (remote ?c) = (Inr [], remote ?c)"
    by (simp add: memory_client_def memory_api_def)
  have n: "\<forall>g\<in>set ([] :: uploaded_file list). file_display_name g \<noteq> Some (str ''data_x_json'')"
    by simp
  have u: "files_upload (api ?c) (str ''x.json'')
             \<lparr>up_display_name = str ''data_x_json'',
              up_mime_type = (\<lambda>p. Some (str ''application/json'')) (str ''x.json'')\<rparr> (remote ?c) =
           (Inr ?f, ?r2)"
    by (simp add: memory_client_def memory_api_def Let_def str_def)
  have l2: "files_list (api ?c) ?r2 = (Inr [?f], ?r2)"
    by (simp add: memory_client_def memory_api_def)
  have f2: "find (\<lambda>g. file_display_name g = Some (str ''data_x_json'')) [?f] = Some ?f"
    by simp
  from ensure_file_idempotent[where c = ?c and d = "str ''data_x_json''" and p = "str ''x.json''"
         and gt = "\<lambda>p. Some (str ''application/json'')"] l n u l2 f2
  show ?thesis by auto
qed

section \<open>Runs of the orchestrator\<close>

lemma gemini_battler_split:
  "gemini_battler alnum gt mk key opts context prompt =
     and_then (before_generate alnum gt mk key opts context) (\<lambda>(mdl, config).
       and_then (remote_call (GenerateContent (model_name mdl) prompt config)
                   (\<lambda>a. generate_content a (model_name mdl) prompt config))
         (\<lambda>resp. return (response_text resp)))"
  unfolding gemini_battler_def before_generate_def
  by (simp add: and_then_assoc and_then_return)

lemma before_generate_split:
  "before_generate alnum gt mk key opts context =
     and_then (before_cache alnum gt mk key opts) (\<lambda>(mdl, files).
       and_then (if use_cache opts then
             and_then (ensure_cache (model_name mdl) (str ''battler'') context files) (\<lambda>cache.
               return \<lparr>system_instruction = None, cached_content = Some (cache_name cache)\<rparr>)
           else return \<lparr>system_instruction = Some context, cached_content = None\<rparr>)
         (\<lambda>config. return (mdl, config)))"
  unfolding before_generate_def before_cache_def
  by (simp add: and_then_assoc and_then_return)

lemma generate_step:
  "and_then (remote_call (GenerateContent m prompt config) (\<lambda>a. generate_content a m prompt config))
     (\<lambda>resp. return (response_text resp)) c3 =
   (case generate_content (api c3) m prompt config (remote c3) of
      (Inl e, r') \<Rightarrow> (Inl e, c3\<lparr>remote := r', calls := calls c3 @ [GenerateContent m prompt config]\<rparr>)
    | (Inr resp, r') \<Rightarrow>
        (Inr (response_text resp),
         c3\<lparr>remote := r', calls := calls c3 @ [GenerateContent m prompt config]\<rparr>))"
  by (simp add: and_then_def remote_call_def return_def split: prod.splits sum.splits)

text \<open>
  Claim C9, as the code has it. In a run that reaches the generation call, an error of the
  call is the error of the run, and a response is answered by returning its text as it is:
  when the response has no text, \<open>gemini_battler\<close> returns \<open>None\<close> normally.
\<close>

theorem gemini_battler_generate:
  assumes "before_generate alnum gt mk key opts context c = (Inr (mdl, config), c3)"
  shows "(\<forall>e r'. generate_content (api c3) (model_name mdl) prompt config (remote c3) = (Inl e, r') \<longrightarrow>
            gemini_battler alnum gt mk key opts context prompt c =
              (Inl e, c3\<lparr>remote := r',
                 calls := calls c3 @ [GenerateContent (model_name mdl) prompt config]\<rparr>)) \<and>
         (\<forall>resp r'. generate_content (api c3) (model_name mdl) prompt config (remote c3) = (Inr resp, r') \<longrightarrow>
            gemini_battler alnum gt mk key opts context prompt c =
              (Inr (response_text resp), c3\<lparr>remote := r',
                 calls := calls c3 @ [GenerateContent (model_name mdl) prompt config]\<rparr>))"
proof -
  have "gemini_battler alnum gt mk key opts context prompt c =
          and_then (remote_call (GenerateContent (model_name mdl) prompt config)
                   (\<lambda>a. generate_content a (model_name mdl) prompt config))
         (\<lambda>resp. return (response_text resp)) c3"
    unfolding gemini_battler_split using assms by (simp add: and_then_def)
  then show ?thesis by (simp add: generate_step)
qed

lemma before_generate_memory:
  "before_generate alnum gt key_required (Some (str ''k'')) (sample_options False False) context
     (memory_client resp) =
     (Inr (\<lparr>model_name = str ''models/gemini-2.5-flash'', input_token_limit = 1048576\<rparr>,
           \<lparr>system_instruction = Some context, cached_content = None\<rparr>),
      (memory_client resp)\<lparr>calls := [ModelsGet (str ''models/gemini-2.5-flash'')]\<rparr>)"
  by (simp add: before_generate_def new_client_def key_required_def sample_options_def
        memory_client_def memory_api_def and_then_def remote_call_def return_def str_def)

theorem gemini_battler_generate_witness:
  "gemini_battler latin1_alnum (\<lambda>p. None) key_required (Some (str ''k'')) (sample_options False False)
     (str ''context'') (str ''prompt'') (memory_client \<lparr>response_text = Some (str ''move 1'')\<rparr>) =
   (Inr (Some (str ''move 1'')),
    (memory_client \<lparr>response_text = Some (str ''move 1'')\<rparr>)
      \<lparr>calls := [ModelsGet (str ''models/gemini-2.5-flash''),
         GenerateContent (str ''models/gemini-2.5-flash'') (str ''prompt'')
           \<lparr>system_instruction = Some (str ''context''), cached_content = None\<rparr>]\<rparr>)"
proof -
  let ?c = "memory_client \<lparr>response_text = Some (str ''move 1'')\<rparr>"
  let ?c3 = "?c\<lparr>calls := [ModelsGet (str ''models/gemini-2.5-flash'')]\<rparr>"
  let ?mdl = "\<lparr>model_name = str ''models/gemini-2.5-flash'', input_token_limit = 1048576\<rparr>"
  let ?config = "\<lparr>system_instruction = Some (str ''context''), cached_content = None\<rparr>"
  have g: "generate_content (api ?c3) (model_name ?mdl) (str ''prompt'') ?config (remote ?c3) =
             (Inr \<lparr>response_text = Some (str ''move 1'')\<rparr>, remote ?c3)"
    by (simp add: memory_client_def memory_api_def)
  have b: "before_generate latin1_alnum (\<lambda>p. None) key_required (Some (str ''k''))
             (sample_options False False) (str ''context'') ?c =
             (Inr (?mdl, ?config), ?c3)"
    by (rule before_generate_memory)
  from gemini_battler_generate[where prompt = "str ''prompt''", OF b] g
  show ?thesis by simp
qed

text \<open>
  Claim C9 as the specification states it fails: with a response without text the
  orchestrator returns normally.
\<close>

theorem gemini_battler_generate_counterexample:
  "fst (gemini_battler latin1_alnum (\<lambda>p. None) key_required (Some (str ''k''))
     (sample_options False False) (str ''context'')
     (str ''prompt'') (memory_client \<lparr>response_text = None\<rparr>)) = Inr None"
  by (simp add: gemini_battler_def new_client_def key_required_def sample_options_def
        memory_client_def memory_api_def and_then_def remote_call_def return_def str_def)

text \<open>
  Claim C3, as the code has it. \<open>gemini_battler\<close> constructs the client and looks the
  model up before it checks the options. With \<open>use_data_files\<close> and without
  \<open>use_cache\<close> or a data directory: when the constructor raises, its error is the error
  of the run and no call is issued; otherwise the model lookup is issued, and a run whose
  lookup succeeds raises \<open>ValueError\<close> after that one call, with no listing, upload,
  cache creation or generation call; when the lookup fails, its error is the error of the
  run.
\<close>

theorem gemini_battler_invalid_configuration:
  assumes "use_data_files opts" and "\<not> use_cache opts \<or> data opts = None"
  shows "(\<forall>e. mk key = Some e \<longrightarrow>
            gemini_battler alnum gt mk key opts context prompt c = (Inl e, c)) \<and>
         (mk key = None \<longrightarrow>
           (\<forall>mdl r1. models_get (api c) (str ''models/gemini-2.5-flash'') (remote c) = (Inr mdl, r1) \<longrightarrow>
              gemini_battler alnum gt mk key opts context prompt c =
                (Inl (ValueError (if \<not> use_cache opts
                                  then ''Caching must be enabled if using data files''
                                  else ''Data directory must be defined if using data files'')),
                 c\<lparr>remote := r1, calls := calls c @ [ModelsGet (str ''models/gemini-2.5-flash'')]\<rparr>)) \<and>
           (\<forall>e r1. models_get (api c) (str ''models/gemini-2.5-flash'') (remote c) = (Inl e, r1) \<longrightarrow>
              gemini_battler alnum gt mk key opts context prompt c =
                (Inl e, c\<lparr>remote := r1, calls := calls c @ [ModelsGet (str ''models/gemini-2.5-flash'')]\<rparr>)))"
  using assms
  by (auto simp: gemini_battler_def new_client_def and_then_def remote_call_def raise_def return_def
        split: option.splits)

theorem gemini_battler_invalid_configuration_witness:
  "gemini_battler latin1_alnum (\<lambda>p. None) key_required (Some (str ''k'')) (sample_options False True)
     (str ''context'') (str ''prompt'') (memory_client \<lparr>response_text = None\<rparr>) =
   (Inl (ValueError ''Caching must be enabled if using data files''),
    (memory_client \<lparr>response_text = None\<rparr>)
      \<lparr>remote := remote (memory_client \<lparr>response_text = None\<rparr>),
       calls := calls (memory_client \<lparr>response_text = None\<rparr>) @
         [ModelsGet (str ''models/gemini-2.5-flash'')]\<rparr>) \<and>
   gemini_battler latin1_alnum (\<lambda>p. None) key_required None (sample_options False True)
     (str ''context'') (str ''prompt'') (memory_client \<lparr>response_text = None\<rparr>) =
   (Inl (ValueError ''Missing key inputs argument!''), memory_client \<lparr>response_text = None\<rparr>)"
proof -
  let ?c = "memory_client \<lparr>response_text = None\<rparr>"
  have 1: "use_data_files (sample_options False True)" by (simp add: sample_options_def)
  have 2: "\<not> use_cache (sample_options False True) \<or> data (sample_options False True) = None"
    by (simp add: sample_options_def)
  have 3: "models_get (api ?c) (str ''models/gemini-2.5-flash'') (remote ?c) =
     (Inr \<lparr>model_name = str ''models/gemini-2.5-flash'', input_token_limit = 1048576\<rparr>, remote ?c)"
    by (simp add: memory_client_def memory_api_def)
  have 4: "key_required (Some (str ''k'')) = None" by (simp add: key_required_def str_def)
  have 5: "key_required None = Some (ValueError ''Missing key inputs argument!'')"
    by (simp add: key_required_def)
  from gemini_battler_invalid_configuration[OF 1 2, of key_required "Some (str ''k'')" latin1_alnum
        "\<lambda>p. None" "str ''context''" "str ''prompt''" ?c] 3 4
  have A: "gemini_battler latin1_alnum (\<lambda>p. None) key_required (Some (str ''k'')) (sample_options False True)
     (str ''context'') (str ''prompt'') ?c =
   (Inl (ValueError ''Caching must be enabled if using data files''),
    ?c\<lparr>remote := remote ?c, calls := calls ?c @ [ModelsGet (str ''models/gemini-2.5-flash'')]\<rparr>)"
    by (simp add: sample_options_def)
  from gemini_battler_invalid_configuration[OF 1 2, of key_required None latin1_alnum
        "\<lambda>p. None" "str ''context''" "str ''prompt''" ?c] 5
  have B: "gemini_battler latin1_alnum (\<lambda>p. None) key_required None (sample_options False True)
     (str ''context'') (str ''prompt'') ?c = (Inl (ValueError ''Missing key inputs argument!''), ?c)"
    by simp
  from A B show ?thesis by simp
qed

text \<open>
  Claim C3 as the specification states it fails: when the run raises \<open>ValueError\<close> for
  the options, the model lookup has been issued.
\<close>

theorem gemini_battler_invalid_configuration_counterexample:
  "fst (gemini_battler latin1_alnum (\<lambda>p. None) key_required (Some (str ''k''))
     (sample_options False True) (str ''context'')
     (str ''prompt'') (memory_client \<lparr>response_text = None\<rparr>)) =
     Inl (ValueError ''Caching must be enabled if using data files'') \<and>
   calls (snd (gemini_battler latin1_alnum (\<lambda>p. None) key_required (Some (str ''k''))
     (sample_options False True) (str ''context'')
     (str ''prompt'') (memory_client \<lparr>response_text = None\<rparr>))) =
     [ModelsGet (str ''models/gemini-2.5-flash'')]"
  by (simp add: gemini_battler_def new_client_def key_required_def sample_options_def
        memory_client_def memory_api_def and_then_def remote_call_def raise_def return_def str_def)


section \<open>The calls of a run\<close>

lemma issues_only_return: "issues_only K (return x)"
  by (simp add: issues_only_def return_def)

lemma issues_only_raise: "issues_only K (raise e)"
  by (simp add: issues_only_def raise_def)

lemma issues_only_remote_call: "K k \<Longrightarrow> issues_only K (remote_call k op)"
  by (simp add: issues_only_def remote_call_def split: prod.splits)

lemma issues_only_new_client: "issues_only K (new_client mk key)"
  by (simp add: new_client_def issues_only_return issues_only_raise split: option.splits)

lemma issues_only_and_then:
  assumes "issues_only K m" and "\<And>x. issues_only K (f x)"
  shows "issues_only K (and_then m f)"
  unfolding issues_only_def
proof
  fix c
  from assms(1) obtain new where m: "api (snd (m c)) = api c" "calls (snd (m c)) = calls c @ new"
    "list_all K new" unfolding issues_only_def by blast
  show "api (snd (and_then m f c)) = api c \<and>
        (\<exists>new. calls (snd (and_then m f c)) = calls c @ new \<and> list_all K new)"
  proof (cases "m c")
    case (Pair res c1)
    show ?thesis
    proof (cases res)
      case (Inl e)
      with Pair m show ?thesis by (auto simp: and_then_def)
    next
      case (Inr x)
      from assms(2)[of x] obtain new2 where f: "api (snd (f x c1)) = api c1"
        "calls (snd (f x c1)) = calls c1 @ new2" "list_all K new2"
        unfolding issues_only_def by blast
      have "calls (snd (and_then m f c)) = calls c @ (new @ new2)"
        using Pair Inr m f by (simp add: and_then_def)
      moreover have "list_all K (new @ new2)" using m(3) f(3) by simp
      moreover have "api (snd (and_then m f c)) = api c"
        using Pair Inr m f by (simp add: and_then_def)
      ultimately show ?thesis by blast
    qed
  qed
qed

lemma issues_only_ensure_file:
  "issues_only (\<lambda>k. \<not> is_generate k) (ensure_file gt d p)"
  unfolding ensure_file_def
  by (intro issues_only_and_then issues_only_remote_call)
     (auto simp: Let_def intro: issues_only_return issues_only_remote_call split: option.splits)

lemma issues_only_ensure_entries:
  "issues_only (\<lambda>k. \<not> is_generate k) (ensure_entries alnum gt prefix flt ps files)"
proof (induction ps arbitrary: files)
  case Nil
  then show ?case by (simp add: issues_only_return)
next
  case (Cons p ps)
  show ?case
    by (auto simp: Let_def intro!: issues_only_and_then issues_only_ensure_file Cons.IH)
qed

lemma issues_only_ensure_cache:
  "issues_only (\<lambda>k. \<not> is_generate k) (ensure_cache m d context files)"
  unfolding ensure_cache_def
  by (intro issues_only_and_then issues_only_remote_call)
     (auto simp: Let_def intro: issues_only_return issues_only_remote_call split: option.splits)

lemma issues_only_before_generate:
  "issues_only (\<lambda>k. \<not> is_generate k) (before_generate alnum gt mk key opts context)"
  unfolding before_generate_def ensure_all_files_in_directory_def
  by (intro issues_only_and_then issues_only_new_client)
     (auto intro!: issues_only_return issues_only_raise issues_only_and_then issues_only_remote_call
        issues_only_ensure_entries issues_only_ensure_cache split: option.splits)

lemma ensure_cache_Inr:
  assumes "ensure_cache m d context files c2 = (Inr cache, c3)"
  shows "\<exists>listing r2.
           caches_list (api c2) (remote c2) = (Inr listing, r2) \<and>
           (case find (\<lambda>k. cache_display_name k = Some d) listing of
              Some k \<Rightarrow> cache = k \<and> c3 = c2\<lparr>remote := r2, calls := calls c2 @ [CachesList]\<rparr>
            | None \<Rightarrow>
                (\<exists>r3. caches_create (api c2) m
                         \<lparr>cc_display_name = d, cc_system_instruction = context,
                          cc_contents = files, cc_ttl = str ''300s''\<rparr> r2 = (Inr cache, r3) \<and>
                       c3 = c2\<lparr>remote := r3, calls := calls c2 @
                              [CachesList,
                               CachesCreate m \<lparr>cc_display_name = d, cc_system_instruction = context,
                                 cc_contents = files, cc_ttl = str ''300s''\<rparr>]\<rparr>))"
  using assms
  by (auto simp: ensure_cache_def and_then_def remote_call_def return_def Let_def
        split: prod.splits sum.splits option.splits)

lemma before_cache_no_files:
  assumes "before_cache alnum gt mk key opts c = (Inr (mdl, files), c2)"
    and "\<not> use_data_files opts"
  shows "files = None \<and>
         (\<exists>r1. models_get (api c) (str ''models/gemini-2.5-flash'') (remote c) = (Inr mdl, r1) \<and>
               c2 = c\<lparr>remote := r1, calls := calls c @ [ModelsGet (str ''models/gemini-2.5-flash'')]\<rparr>)"
  using assms
  by (auto simp: before_cache_def new_client_def and_then_def remote_call_def return_def raise_def
        split: prod.splits sum.splits option.splits)

lemma before_generate_config:
  fixes c :: "'r client"
  assumes "before_generate alnum gt mk key opts context c = (Inr (mdl, config), c3)"
  shows "\<exists>files (c2 :: 'r client).
           before_cache alnum gt mk key opts c = (Inr (mdl, files), c2) \<and>
           (if use_cache opts
            then \<exists>cache.
                   ensure_cache (model_name mdl) (str ''battler'') context files c2 = (Inr cache, c3) \<and>
                   config = \<lparr>system_instruction = None, cached_content = Some (cache_name cache)\<rparr>
            else config = \<lparr>system_instruction = Some context, cached_content = None\<rparr>)"
proof -
  from assms obtain mf c2 where
    bc: "before_cache alnum gt mk key opts c = (Inr mf, c2)"
    and r2: "(case mf of (mdl, files) \<Rightarrow>
       and_then (if use_cache opts then
             and_then (ensure_cache (model_name mdl) (str ''battler'') context files) (\<lambda>cache.
               return \<lparr>system_instruction = None, cached_content = Some (cache_name cache)\<rparr>)
           else return \<lparr>system_instruction = Some context, cached_content = None\<rparr>)
         (\<lambda>config. return (mdl, config))) c2 = (Inr (mdl, config), c3)"
    unfolding before_generate_split by (rule and_then_InrE)
  obtain m1 files where mf: "mf = (m1, files)" by (cases mf)
  from r2 mf obtain cfg c3' where
    r3: "(if use_cache opts then
             and_then (ensure_cache (model_name m1) (str ''battler'') context files) (\<lambda>cache.
               return \<lparr>system_instruction = None, cached_content = Some (cache_name cache)\<rparr>)
           else return \<lparr>system_instruction = Some context, cached_content = None\<rparr>) c2 = (Inr cfg, c3')"
    and r4: "return (m1, cfg) c3' = (Inr (mdl, config), c3)"
    by (auto elim: and_then_InrE)
  from r4 have eq: "m1 = mdl" "cfg = config" "c3' = c3" by (simp_all add: return_def)
  have bc': "before_cache alnum gt mk key opts c = (Inr (mdl, files), c2)"
    using bc mf eq by simp
  show ?thesis
  proof (cases "use_cache opts")
    case True
    with r3 have "and_then (ensure_cache (model_name mdl) (str ''battler'') context files) (\<lambda>cache.
               return \<lparr>system_instruction = None, cached_content = Some (cache_name cache)\<rparr>) c2 =
               (Inr config, c3)" by (simp add: eq)
    then obtain cache c4 where
      "ensure_cache (model_name mdl) (str ''battler'') context files c2 = (Inr cache, c4)"
      "return \<lparr>system_instruction = None, cached_content = Some (cache_name cache)\<rparr> c4 = (Inr config, c3)"
      by (rule and_then_InrE)
    then have "ensure_cache (model_name mdl) (str ''battler'') context files c2 = (Inr cache, c3) \<and>
                config = \<lparr>system_instruction = None, cached_content = Some (cache_name cache)\<rparr>"
      by (simp add: return_def)
    with True bc' show ?thesis by auto
  next
    case False
    with r3 bc' show ?thesis by (auto simp: eq return_def)
  qed
qed

text \<open>
  Claim C2. Whatever the remote service answers, a generation call that a run of
  \<open>gemini_battler\<close> issues is the only one and the last call of the run, its content is
  the prompt, and its configuration never holds a system instruction together with a
  cache reference. Without \<open>use_cache\<close> it holds the context as system instruction and
  no cache reference. With \<open>use_cache\<close> it holds no system instruction, and its cache
  reference is the name of the cache that this run reconciled: in the state \<open>c2\<close> that
  the run reached before \<open>ensure_cache\<close> (after the model lookup alone when no data
  files are used), the cache is the first one of the service's listing with the display
  name \<open>battler\<close>, or, when the listing has none, the cache that the service created
  for this model, context and files with a time to live of 300 seconds; the generation
  call is issued in the state \<open>c3\<close> that \<open>ensure_cache\<close> left. A configuration has no
  list of files.
\<close>

theorem gemini_battler_config_exclusive:
  fixes c :: "'r client"
  assumes "gemini_battler alnum gt mk key opts context prompt c = (res, c')"
    and "GenerateContent m p cfg \<in> set (drop (length (calls c)) (calls c'))"
  shows "p = prompt \<and>
         \<not> (system_instruction cfg \<noteq> None \<and> cached_content cfg \<noteq> None) \<and>
         (use_cache opts \<longrightarrow>
            system_instruction cfg = None \<and>
            (\<exists>(mdl :: model) files (c2 :: 'r client) listing r2 cache c3.
               before_cache alnum gt mk key opts c = (Inr (mdl, files), c2) \<and>
               (\<not> use_data_files opts \<longrightarrow>
                  files = None \<and>
                  (\<exists>r1. models_get (api c) (str ''models/gemini-2.5-flash'') (remote c) = (Inr mdl, r1) \<and>
                        c2 = c\<lparr>remote := r1,
                               calls := calls c @ [ModelsGet (str ''models/gemini-2.5-flash'')]\<rparr>)) \<and>
               ensure_cache (model_name mdl) (str ''battler'') context files c2 = (Inr cache, c3) \<and>
               caches_list (api c2) (remote c2) = (Inr listing, r2) \<and>
               (case find (\<lambda>k. cache_display_name k = Some (str ''battler'')) listing of
                  Some k \<Rightarrow> cache = k \<and> c3 = c2\<lparr>remote := r2, calls := calls c2 @ [CachesList]\<rparr>
                | None \<Rightarrow>
                    (\<exists>r3. caches_create (api c2) (model_name mdl)
                             \<lparr>cc_display_name = str ''battler'', cc_system_instruction = context,
                              cc_contents = files, cc_ttl = str ''300s''\<rparr> r2 = (Inr cache, r3) \<and>
                           c3 = c2\<lparr>remote := r3, calls := calls c2 @
                                  [CachesList,
                                   CachesCreate (model_name mdl)
                                     \<lparr>cc_display_name = str ''battler'', cc_system_instruction = context,
                                      cc_contents = files, cc_ttl = str ''300s''\<rparr>]\<rparr>)) \<and>
               m = model_name mdl \<and>
               cfg = \<lparr>system_instruction = None, cached_content = Some (cache_name cache)\<rparr> \<and>
               cached_content cfg = Some (cache_name cache) \<and>
               calls c' = calls c3 @ [GenerateContent m p cfg] \<and>
               (\<exists>gres r4. generate_content (api c3) m p cfg (remote c3) = (gres, r4) \<and>
                          c' = c3\<lparr>remote := r4, calls := calls c3 @ [GenerateContent m p cfg]\<rparr>))) \<and>
         (\<not> use_cache opts \<longrightarrow>
            cfg = \<lparr>system_instruction = Some context, cached_content = None\<rparr>) \<and>
         length (filter is_generate (drop (length (calls c)) (calls c'))) = 1"
proof -
  from issues_only_before_generate[of alnum gt mk key opts "context"]
  obtain new where new: "calls (snd (before_generate alnum gt mk key opts context c)) = calls c @ new"
    "list_all (\<lambda>k. \<not> is_generate k) new"
    unfolding issues_only_def by blast
  have nogen: "GenerateContent m p cfg \<notin> set new"
    using new(2) by (auto simp: list_all_iff)
  obtain r0 c3 where b: "before_generate alnum gt mk key opts context c = (r0, c3)"
    by (cases "before_generate alnum gt mk key opts context c")
  from new b have c3: "calls c3 = calls c @ new" by simp
  show ?thesis
  proof (cases r0)
    case (Inl e)
    with b assms(1) have "c' = c3"
      unfolding gemini_battler_split by (simp add: and_then_def)
    with c3 assms(2) nogen show ?thesis by simp
  next
    case (Inr mc)
    obtain mdl config where mc: "mc = (mdl, config)" by (cases mc)
    have b': "before_generate alnum gt mk key opts context c = (Inr (mdl, config), c3)"
      using b Inr mc by simp
    have "gemini_battler alnum gt mk key opts context prompt c =
            and_then (remote_call (GenerateContent (model_name mdl) prompt config)
                   (\<lambda>a. generate_content a (model_name mdl) prompt config))
         (\<lambda>resp. return (response_text resp)) c3"
      unfolding gemini_battler_split using b' by (simp add: and_then_def)
    with assms(1) obtain gres r4 where
      g: "generate_content (api c3) (model_name mdl) prompt config (remote c3) = (gres, r4)"
      and c'full: "c' = c3\<lparr>remote := r4,
                      calls := calls c3 @ [GenerateContent (model_name mdl) prompt config]\<rparr>"
      by (auto simp: generate_step split: prod.splits sum.splits)
    from c'full have c': "calls c' = calls c3 @ [GenerateContent (model_name mdl) prompt config]"
      by simp
    then have d: "drop (length (calls c)) (calls c') =
                    new @ [GenerateContent (model_name mdl) prompt config]"
      by (simp add: c3)
    with assms(2) nogen have eq: "m = model_name mdl" "p = prompt" "cfg = config" by auto
    have f: "filter is_generate new = []"
      using new(2) by (induction new) auto
    have one: "length (filter is_generate (drop (length (calls c)) (calls c'))) = 1"
      by (simp add: d f)
    from before_generate_config[OF b'] obtain files c2 where
      bc: "before_cache alnum gt mk key opts c = (Inr (mdl, files), c2)"
      and cf: "if use_cache opts
            then \<exists>cache.
                   ensure_cache (model_name mdl) (str ''battler'') context files c2 = (Inr cache, c3) \<and>
                   config = \<lparr>system_instruction = None, cached_content = Some (cache_name cache)\<rparr>
            else config = \<lparr>system_instruction = Some context, cached_content = None\<rparr>"
      by blast
    show ?thesis
    proof (cases "use_cache opts")
      case True
      with cf obtain cache where
        e: "ensure_cache (model_name mdl) (str ''battler'') context files c2 = (Inr cache, c3)"
           "config = \<lparr>system_instruction = None, cached_content = Some (cache_name cache)\<rparr>"
        by auto
      from ensure_cache_Inr[OF e(1)] obtain listing r2 where
        l: "caches_list (api c2) (remote c2) = (Inr listing, r2)"
        and k: "(case find (\<lambda>k. cache_display_name k = Some (str ''battler'')) listing of
                  Some k \<Rightarrow> cache = k \<and> c3 = c2\<lparr>remote := r2, calls := calls c2 @ [CachesList]\<rparr>
                | None \<Rightarrow>
                    (\<exists>r3. caches_create (api c2) (model_name mdl)
                             \<lparr>cc_display_name = str ''battler'', cc_system_instruction = context,
                              cc_contents = files, cc_ttl = str ''300s''\<rparr> r2 = (Inr cache, r3) \<and>
                           c3 = c2\<lparr>remote := r3, calls := calls c2 @
                                  [CachesList,
                                   CachesCreate (model_name mdl)
                                     \<lparr>cc_display_name = str ''battler'', cc_system_instruction = context,
                                      cc_contents = files, cc_ttl = str ''300s''\<rparr>]\<rparr>))"
        by blast
      have nf: "\<not> use_data_files opts \<longrightarrow>
                  files = None \<and>
                  (\<exists>r1. models_get (api c) (str ''models/gemini-2.5-flash'') (remote c) = (Inr mdl, r1) \<and>
                        c2 = c\<lparr>remote := r1,
                               calls := calls c @ [ModelsGet (str ''models/gemini-2.5-flash'')]\<rparr>)"
        using before_cache_no_files[OF bc] by blast
      have gen: "\<exists>gres r4. generate_content (api c3) m p cfg (remote c3) = (gres, r4) \<and>
                          c' = c3\<lparr>remote := r4, calls := calls c3 @ [GenerateContent m p cfg]\<rparr>"
        using g c'full eq by blast
      have "before_cache alnum gt mk key opts c = (Inr (mdl, files), c2) \<and>
               (\<not> use_data_files opts \<longrightarrow>
                  files = None \<and>
                  (\<exists>r1. models_get (api c) (str ''models/gemini-2.5-flash'') (remote c) = (Inr mdl, r1) \<and>
                        c2 = c\<lparr>remote := r1,
                               calls := calls c @ [ModelsGet (str ''models/gemini-2.5-flash'')]\<rparr>)) \<and>
               ensure_cache (model_name mdl) (str ''battler'') context files c2 = (Inr cache, c3) \<and>
               caches_list (api c2) (remote c2) = (Inr listing, r2) \<and>
               (case find (\<lambda>k. cache_display_name k = Some (str ''battler'')) listing of
                  Some k \<Rightarrow> cache = k \<and> c3 = c2\<lparr>remote := r2, calls := calls c2 @ [CachesList]\<rparr>
                | None \<Rightarrow>
                    (\<exists>r3. caches_create (api c2) (model_name mdl)
                             \<lparr>cc_display_name = str ''battler'', cc_system_instruction = context,
                              cc_contents = files, cc_ttl = str ''300s''\<rparr> r2 = (Inr cache, r3) \<and>
                           c3 = c2\<lparr>remote := r3, calls := calls c2 @
                                  [CachesList,
                                   CachesCreate (model_name mdl)
                                     \<lparr>cc_display_name = str ''battler'', cc_system_instruction = context,
                                      cc_contents = files, cc_ttl = str ''300s''\<rparr>]\<rparr>)) \<and>
               m = model_name mdl \<and>
               cfg = \<lparr>system_instruction = None, cached_content = Some (cache_name cache)\<rparr> \<and>
               cached_content cfg = Some (cache_name cache) \<and>
               calls c' = calls c3 @ [GenerateContent m p cfg] \<and>
               (\<exists>gres r4. generate_content (api c3) m p cfg (remote c3) = (gres, r4) \<and>
                          c' = c3\<lparr>remote := r4, calls := calls c3 @ [GenerateContent m p cfg]\<rparr>)"
        using bc nf e(1) l k eq e(2) c' gen by simp
      then have ex: "\<exists>(mdl :: model) files (c2 :: 'r client) listing r2 cache c3.
               before_cache alnum gt mk key opts c = (Inr (mdl, files), c2) \<and>
               (\<not> use_data_files opts \<longrightarrow>
                  files = None \<and>
                  (\<exists>r1. models_get (api c) (str ''models/gemini-2.5-flash'') (remote c) = (Inr mdl, r1) \<and>
                        c2 = c\<lparr>remote := r1,
                               calls := calls c @ [ModelsGet (str ''models/gemini-2.5-flash'')]\<rparr>)) \<and>
               ensure_cache (model_name mdl) (str ''battler'') context files c2 = (Inr cache, c3) \<and>
               caches_list (api c2) (remote c2) = (Inr listing, r2) \<and>
               (case find (\<lambda>k. cache_display_name k = Some (str ''battler'')) listing of
                  Some k \<Rightarrow> cache = k \<and> c3 = c2\<lparr>remote := r2, calls := calls c2 @ [CachesList]\<rparr>
                | None \<Rightarrow>
                    (\<exists>r3. caches_create (api c2) (model_name mdl)
                             \<lparr>cc_display_name = str ''battler'', cc_system_instruction = context,
                              cc_contents = files, cc_ttl = str ''300s''\<rparr> r2 = (Inr cache, r3) \<and>
                           c3 = c2\<lparr>remote := r3, calls := calls c2 @
                                  [CachesList,
                                   CachesCreate (model_name mdl)
                                     \<lparr>cc_display_name = str ''battler'', cc_system_instruction = context,
                                      cc_contents = files, cc_ttl = str ''300s''\<rparr>]\<rparr>)) \<and>
               m = model_name mdl \<and>
               cfg = \<lparr>system_instruction = None, cached_content = Some (cache_name cache)\<rparr> \<and>
               cached_content cfg = Some (cache_name cache) \<and>
               calls c' = calls c3 @ [GenerateContent m p cfg] \<and>
               (\<exists>gres r4. generate_content (api c3) m p cfg (remote c3) = (gres, r4) \<and>
                          c' = c3\<lparr>remote := r4, calls := calls c3 @ [GenerateContent m p cfg]\<rparr>)"
        by (intro exI)
      have si: "system_instruction cfg = None" "cached_content cfg \<noteq> None"
        using e(2) eq by simp_all
      show ?thesis
        using True eq(2) si ex one by (simp only: simp_thms)
    next
      case False
      with cf have "config = \<lparr>system_instruction = Some context, cached_content = None\<rparr>"
        by simp
      with False eq one show ?thesis by simp
    qed
  qed
qed


theorem gemini_battler_config_exclusive_witness:
  "calls (snd (gemini_battler latin1_alnum (\<lambda>p. None) key_required (Some (str ''k''))
     (sample_options True False) (str ''context'') (str ''prompt'')
     (cached_client \<lparr>response_text = Some (str ''move 1'')\<rparr>))) =
     [ModelsGet (str ''models/gemini-2.5-flash''), CachesList,
      GenerateContent (str ''models/gemini-2.5-flash'') (str ''prompt'')
        \<lparr>system_instruction = None, cached_content = Some (str ''cachedContents/k7'')\<rparr>] \<and>
   calls (snd (gemini_battler latin1_alnum (\<lambda>p. None) key_required (Some (str ''k''))
     (sample_options True False) (str ''context'') (str ''prompt'')
     (memory_client \<lparr>response_text = Some (str ''move 1'')\<rparr>))) =
     [ModelsGet (str ''models/gemini-2.5-flash''), CachesList,
      CachesCreate (str ''models/gemini-2.5-flash'')
        \<lparr>cc_display_name = str ''battler'', cc_system_instruction = str ''context'',
         cc_contents = None, cc_ttl = str ''300s''\<rparr>,
      GenerateContent (str ''models/gemini-2.5-flash'') (str ''prompt'')
        \<lparr>system_instruction = None, cached_content = Some (str ''cachedContents/battler'')\<rparr>] \<and>
   length (filter is_generate (calls (snd (gemini_battler latin1_alnum (\<lambda>p. None)
     key_required (Some (str ''k'')) (sample_options True False) (str ''context'') (str ''prompt'')
     (cached_client \<lparr>response_text = Some (str ''move 1'')\<rparr>))))) = 1 \<and>
   length (filter is_generate (calls (snd (gemini_battler latin1_alnum (\<lambda>p. None)
     key_required (Some (str ''k'')) (sample_options True False) (str ''context'') (str ''prompt'')
     (memory_client \<lparr>response_text = Some (str ''move 1'')\<rparr>))))) = 1"
proof -
  let ?k = "cached_client \<lparr>response_text = Some (str ''move 1'')\<rparr>"
  let ?c = "memory_client \<lparr>response_text = Some (str ''move 1'')\<rparr>"
  let ?runk = "gemini_battler latin1_alnum (\<lambda>p. None) key_required (Some (str ''k''))
     (sample_options True False) (str ''context'') (str ''prompt'') ?k"
  let ?run = "gemini_battler latin1_alnum (\<lambda>p. None) key_required (Some (str ''k''))
     (sample_options True False) (str ''context'') (str ''prompt'') ?c"
  have trk: "calls (snd ?runk) =
     [ModelsGet (str ''models/gemini-2.5-flash''), CachesList,
      GenerateContent (str ''models/gemini-2.5-flash'') (str ''prompt'')
        \<lparr>system_instruction = None, cached_content = Some (str ''cachedContents/k7'')\<rparr>]"
    by (simp add: gemini_battler_def new_client_def key_required_def ensure_cache_def
          sample_options_def cached_client_def memory_api_def and_then_def remote_call_def
          return_def Let_def str_def)
  have tr: "calls (snd ?run) =
     [ModelsGet (str ''models/gemini-2.5-flash''), CachesList,
      CachesCreate (str ''models/gemini-2.5-flash'')
        \<lparr>cc_display_name = str ''battler'', cc_system_instruction = str ''context'',
         cc_contents = None, cc_ttl = str ''300s''\<rparr>,
      GenerateContent (str ''models/gemini-2.5-flash'') (str ''prompt'')
        \<lparr>system_instruction = None, cached_content = Some (str ''cachedContents/battler'')\<rparr>]"
    by (simp add: gemini_battler_def new_client_def key_required_def ensure_cache_def
          sample_options_def memory_client_def memory_api_def and_then_def remote_call_def
          return_def Let_def str_def)
  have k0: "calls ?k = []" by (simp add: cached_client_def)
  have c0: "calls ?c = []" by (simp add: memory_client_def)
  have runk: "?runk = (fst ?runk, snd ?runk)" by simp
  have run: "?run = (fst ?run, snd ?run)" by simp
  have memk: "GenerateContent (str ''models/gemini-2.5-flash'') (str ''prompt'')
        \<lparr>system_instruction = None, cached_content = Some (str ''cachedContents/k7'')\<rparr>
        \<in> set (drop (length (calls ?k)) (calls (snd ?runk)))"
    unfolding trk k0 by simp
  have mem: "GenerateContent (str ''models/gemini-2.5-flash'') (str ''prompt'')
        \<lparr>system_instruction = None, cached_content = Some (str ''cachedContents/battler'')\<rparr>
        \<in> set (drop (length (calls ?c)) (calls (snd ?run)))"
    unfolding tr c0 by simp
  from gemini_battler_config_exclusive[OF runk memk]
  have A: "length (filter is_generate (drop (length (calls ?k)) (calls (snd ?runk)))) = 1" by blast
  from gemini_battler_config_exclusive[OF run mem]
  have B: "length (filter is_generate (drop (length (calls ?c)) (calls (snd ?run)))) = 1" by blast
  from A B show ?thesis using trk tr k0 c0 by simp
qed

end
